theory Spec2Isabelle
  imports Complex_Main "HOL-Library.Stream"
begin

section \<open>The ledger interaction layer of the Exorde worker\<close>

text \<open>
  This theory embeds the functions of \<^verbatim>\<open>src/exorde/protocol/__init__.py\<close> that
  estimate gas, submit and confirm transactions, read the nonce, rotate content gateways
  and fund a worker from a faucet account.

  The Python functions are coroutines that await remote calls one after the other; there
  is no interleaving inside one call, so each is a sequential program over three things:
  the arguments it mutates (the transaction dict and the gas cache dict, returned
  updated), the remote nodes \<^verbatim>\<open>read_web3\<close> and \<^verbatim>\<open>write_web3\<close>, and the
  effects it performs. Effects are recorded in a trace, a list of events in the order
  they happen. A remote node is an injected capability: a record of functions that give
  the node's answer to a request, and that answer may depend on everything that happened
  before, so every such function takes the trace so far. An answer is either an exception
  (\<open>Inl\<close>) or a value (\<open>Inr\<close>).
\<close>

subsection \<open>Values and exceptions\<close>

type_synonym address = string

text \<open>
  The sleep times of the polling loop are the floats \<^verbatim>\<open>i * 1.5 + 1\<close> for
  \<open>i < 10\<close>: the ten numbers 1, 2.5, 4, \<dots>, 14.5, each of which binary64 holds exactly.
  They, the timeouts 120 and 20 and the numbers put into log messages are written as the
  rational numbers they are.
\<close>

type_synonym py_number = rat

text \<open>
  The exceptions the remote capabilities raise, and the \<^verbatim>\<open>OverflowError\<close> that
  Python raises when an \<^verbatim>\<open>int\<close> is too large to become a \<^verbatim>\<open>float\<close>. All
  of them are subclasses of \<^verbatim>\<open>Exception\<close>, which is what the handlers of this
  module catch.
\<close>

datatype py_exception =
    RPCError string           \<comment> \<open>the node is unreachable or rejects the request\<close>
  | TimeExhausted string      \<comment> \<open>the receipt did not arrive within the timeout\<close>
  | OverflowError string      \<comment> \<open>int too large to convert to float\<close>

subsection \<open>Floats\<close>

text \<open>
  The gas estimate is an unbounded \<^verbatim>\<open>int\<close> that the module multiplies by the float
  \<^verbatim>\<open>1.5\<close>, so the arithmetic on it is the arithmetic of binary64: a float is a
  rational number with a significand of 53 bits, or an infinity, and every operation
  rounds its exact result to the nearest float, a tie going to the even significand.
  No operation of this module produces a NaN, so there is none in the type.

  \<open>bit_length n\<close> is Python's \<^verbatim>\<open>n.bit_length()\<close> for a positive \<open>n\<close>;
  \<open>exponent x\<close> is the integer \<open>e\<close> with \<open>2^e \<le> x < 2^(e+1)\<close> for a positive \<open>x\<close>.
  Below \<open>2^-1022\<close> the floats are evenly spaced (the subnormal range), which is the
  \<open>max\<close> in \<open>round_binary64\<close>; a result of \<open>2^1024\<close> or more is an infinity.
\<close>

datatype py_float = Finite rat | PosInf | NegInf

definition pow2 :: "int \<Rightarrow> rat" where
  "pow2 k = (if 0 \<le> k then 2 ^ nat k else 1 / 2 ^ nat (- k))"

function bit_length :: "int \<Rightarrow> nat" where
  "bit_length n = (if n \<le> 0 then 0 else Suc (bit_length (n div 2)))"
  by pat_completeness auto
termination
  by (relation "measure nat") auto

definition exponent :: "rat \<Rightarrow> int" where
  "exponent x =
     (if 1 \<le> x then int (bit_length \<lfloor>x\<rfloor>) - 1
      else - int (bit_length (\<lceil>1 / x\<rceil> - 1)))"

definition round_half_even :: "rat \<Rightarrow> int" where
  "round_half_even q =
     (let f = \<lfloor>q\<rfloor>; r = q - of_int f
      in if r < 1 / 2 then f
         else if 1 / 2 < r then f + 1
         else if even f then f else f + 1)"

definition round_binary64 :: "rat \<Rightarrow> py_float" where
  "round_binary64 x =
     (if x = 0 then Finite 0
      else
        let a = \<bar>x\<bar>;
            e = max (exponent a) (- 1022);
            ulp = pow2 (e - 52);
            y = of_int (round_half_even (a / ulp)) * ulp
        in if pow2 1024 \<le> y then (if x < 0 then NegInf else PosInf)
           else Finite (if x < 0 then - y else y))"

text \<open>
  \<^verbatim>\<open>n * c\<close> for an \<^verbatim>\<open>int\<close> \<open>n\<close> and a finite float \<open>c\<close>: Python converts
  \<open>n\<close> to a float first, which raises \<^verbatim>\<open>OverflowError\<close> when the rounded value
  is out of range, and then multiplies; a product out of range is an infinity, not an
  error.
\<close>

definition int_times_float :: "int \<Rightarrow> rat \<Rightarrow> py_exception + py_float" where
  "int_times_float n c =
     (case round_binary64 (of_int n) of
        Finite a \<Rightarrow> Inr (round_binary64 (a * c))
      | PosInf \<Rightarrow> Inl (OverflowError ''int too large to convert to float'')
      | NegInf \<Rightarrow> Inl (OverflowError ''int too large to convert to float''))"

text \<open>
  \<^verbatim>\<open>x + b\<close> and \<^verbatim>\<open>x < n\<close> for a float \<open>x\<close>, where \<open>b\<close> is the float that
  the integer literal on the right becomes (\<^verbatim>\<open>500_000\<close> becomes \<open>500000.0\<close>
  exactly) and the comparison with the \<^verbatim>\<open>int\<close> \<open>n\<close> is exact, as Python's is.
\<close>

fun float_plus :: "py_float \<Rightarrow> rat \<Rightarrow> py_float" where
  "float_plus (Finite a) b = round_binary64 (a + b)"
| "float_plus PosInf b = PosInf"
| "float_plus NegInf b = NegInf"

fun float_less_int :: "py_float \<Rightarrow> int \<Rightarrow> bool" where
  "float_less_int (Finite a) n = (a < of_int n)"
| "float_less_int PosInf n = False"
| "float_less_int NegInf n = True"

text \<open>
  A gas value is an \<^verbatim>\<open>int\<close> or a \<^verbatim>\<open>float\<close>. \<open>exceeds g n\<close> is
  \<^verbatim>\<open>g > n\<close> for an \<^verbatim>\<open>int\<close> \<open>n\<close>, and \<open>py_max n g\<close> is \<^verbatim>\<open>max(n, g)\<close>,
  which returns its second argument only when that is the greater.
\<close>

datatype gas_value = PyInt int | PyFloat py_float

fun exceeds :: "gas_value \<Rightarrow> int \<Rightarrow> bool" where
  "exceeds (PyInt g) n = (n < g)"
| "exceeds (PyFloat (Finite a)) n = (of_int n < a)"
| "exceeds (PyFloat PosInf) n = True"
| "exceeds (PyFloat NegInf) n = False"

definition py_max :: "int \<Rightarrow> gas_value \<Rightarrow> gas_value" where
  "py_max n g = (if exceeds g n then g else PyInt n)"

subsection \<open>Transactions, events and nodes\<close>

text \<open>
  The transaction dict, with the keys the module reads and writes. \<^verbatim>\<open>"gas"\<close> is
  absent until \<^verbatim>\<open>estimate_gas\<close> assigns it. \<^verbatim>\<open>"data"\<close> is the hex string of
  the call data (\<^verbatim>\<open>"0x"\<close>, then two digits per byte), on which \<^verbatim>\<open>str\<close> is the
  identity.
\<close>

record transaction =
  tx_from :: address
  tx_nonce :: int
  tx_gasPrice :: int
  tx_data :: string
  tx_gas :: "gas_value option"

record signed_transaction =
  rawTransaction :: string
  hash :: string

record receipt =
  transactionHash :: string

datatype log_level = DEBUG | INFO | ERROR | CRITICAL

datatype log_arg = Str string | Num py_number | Exc py_exception

text \<open>
  The transaction dict literal that \<^verbatim>\<open>faucet\<close> signs.
\<close>

record transfer =
  tr_nonce :: int
  tr_gasPrice :: int
  tr_gas :: int
  tr_to :: address
  tr_value :: int
  tr_data :: string

text \<open>
  One event per effect. A call event carries the request and the answer received. A log
  event carries the level, the message with its placeholders, and the values put in.
\<close>

datatype event =
    Call_get_transaction_count address "py_exception + int"
  | Call_estimate_gas transaction "py_exception + int"
  | Call_send_raw_transaction string "py_exception + string"
  | Call_wait_for_transaction_receipt string py_number py_number "py_exception + receipt"
  | Call_from_key string "py_exception + address"
  | Call_sign_transaction transfer string "py_exception + signed_transaction"
  | Sleep py_number
  | Log log_level string "log_arg list"

text \<open>
  A node: the methods of \<^verbatim>\<open>web3.eth\<close> that the module calls. The first argument of
  each is the trace at the time of the call.
\<close>

record web3 =
  eth_get_transaction_count :: "event list \<Rightarrow> address \<Rightarrow> py_exception + int"
  eth_estimate_gas :: "event list \<Rightarrow> transaction \<Rightarrow> py_exception + int"
  eth_send_raw_transaction :: "event list \<Rightarrow> string \<Rightarrow> py_exception + string"
  eth_wait_for_transaction_receipt ::
    "event list \<Rightarrow> string \<Rightarrow> py_number \<Rightarrow> py_number \<Rightarrow> py_exception + receipt"
  eth_account_from_key :: "event list \<Rightarrow> string \<Rightarrow> py_exception + address"
  eth_account_sign_transaction ::
    "event list \<Rightarrow> transfer \<Rightarrow> string \<Rightarrow> py_exception + signed_transaction"

subsection \<open>Gas estimation with a cache\<close>

type_synonym gas_key = "string \<times> nat"

type_synonym gas_cache = "gas_key \<rightharpoonup> gas_value"

text \<open>
  The assignments to \<^verbatim>\<open>gas\<close> in the inner coroutine \<^verbatim>\<open>do_estimate_gas\<close>: the
  default, which the scaled estimate plus \<^verbatim>\<open>500_000\<close> replaces when the scaled
  estimate is below \<^verbatim>\<open>100_000\<close>. There is no \<^verbatim>\<open>else\<close>.
\<close>

definition gas_before_floor :: "py_float \<Rightarrow> gas_value" where
  "gas_before_floor estimate =
     (let gas = PyInt 100000
      in if float_less_int estimate 100000 then PyFloat (float_plus estimate 500000) else gas)"

text \<open>
  The inner coroutine \<^verbatim>\<open>do_estimate_gas\<close>. The remote call comes first; when it
  raises, the multiplication and the rest are not reached. When the multiplication
  raises, the remote call has been made and nothing is returned.
\<close>

definition do_estimate_gas ::
  "transaction \<Rightarrow> web3 \<Rightarrow> event list \<Rightarrow> (py_exception + gas_value) \<times> event list" where
  "do_estimate_gas transaction read_web3 tr =
     (let answer = eth_estimate_gas read_web3 tr transaction;
          tr1 = tr @ [Call_estimate_gas transaction answer]
      in case answer of
           Inl e \<Rightarrow> (Inl e, tr1)
         | Inr raw \<Rightarrow>
             (case int_times_float raw 1.5 of
                Inl e \<Rightarrow> (Inl e, tr1)
              | Inr estimate \<Rightarrow> (Inr (py_max 10000000 (gas_before_floor estimate)), tr1)))"

text \<open>
  The key of a transaction: \<^verbatim>\<open>str(transaction["data"])[2:10]\<close> and
  \<^verbatim>\<open>len(str(transaction["data"]))\<close>.
\<close>

definition function_bytecode :: "transaction \<Rightarrow> string" where
  "function_bytecode transaction = take (10 - 2) (drop 2 (tx_data transaction))"

definition data_length :: "transaction \<Rightarrow> nat" where
  "data_length transaction = length (tx_data transaction)"

definition gas_key :: "transaction \<Rightarrow> gas_key" where
  "gas_key transaction = (function_bytecode transaction, data_length transaction)"

text \<open>
  \<^verbatim>\<open>estimate_gas\<close> mutates the cache and the transaction in place and returns the
  transaction; the model returns the outcome, the cache and the trace. There is no
  handler in the function: an exception of the estimator or of the arithmetic leaves
  through it.
\<close>

definition estimate_gas ::
  "transaction \<Rightarrow> web3 \<Rightarrow> gas_cache \<Rightarrow> event list \<Rightarrow>
     (py_exception + transaction) \<times> gas_cache \<times> event list" where
  "estimate_gas transaction read_web3 gas_cache tr =
     (case gas_cache (gas_key transaction) of
        Some cached \<Rightarrow> (Inr (transaction\<lparr>tx_gas := Some cached\<rparr>), gas_cache, tr)
      | None \<Rightarrow>
          (case do_estimate_gas transaction read_web3 tr of
             (Inl e, tr1) \<Rightarrow> (Inl e, gas_cache, tr1)
           | (Inr estimate, tr1) \<Rightarrow>
               (let gas_cache1 = gas_cache(gas_key transaction \<mapsto> estimate)
                in (Inr (transaction\<lparr>tx_gas := gas_cache1 (gas_key transaction)\<rparr>),
                    gas_cache1, tr1))))"

text \<open>The number of times the remote estimator was invoked in a trace.\<close>

fun is_estimate_call :: "event \<Rightarrow> bool" where
  "is_estimate_call (Call_estimate_gas t a) = True"
| "is_estimate_call e = False"

definition estimator_calls :: "event list \<Rightarrow> nat" where
  "estimator_calls tr = length (filter is_estimate_call tr)"

subsection \<open>Waiting for a confirmation\<close>

text \<open>
  The loop \<^verbatim>\<open>for i in range(10)\<close> that \<^verbatim>\<open>send_raw_transaction\<close> and
  \<^verbatim>\<open>faucet\<close> both contain, word for word except for the name of the polled address.
  The list argument holds the values of \<open>i\<close> still to come. Each round logs, sleeps,
  reads the transaction count and leaves the loop (\<^verbatim>\<open>break\<close>) when the count
  exceeds the one read before the broadcast. An exception of the read leaves the loop and
  the enclosing block at once.
\<close>

fun nonce_loop ::
  "web3 \<Rightarrow> address \<Rightarrow> int \<Rightarrow> nat list \<Rightarrow> event list \<Rightarrow> (py_exception + unit) \<times> event list" where
  "nonce_loop read_web3 addr previous_nonce [] tr = (Inr (), tr)"
| "nonce_loop read_web3 addr previous_nonce (i # rest) tr =
     (let sleep_time = of_nat i * 1.5 + 1;
          tr1 = tr @ [Log DEBUG ''Waiting {sleep_time} seconds for faucet transaction confirmation''
                        [Num sleep_time],
                      Sleep sleep_time];
          answer = eth_get_transaction_count read_web3 tr1 addr;
          tr2 = tr1 @ [Call_get_transaction_count addr answer]
      in case answer of
           Inl e \<Rightarrow> (Inl e, tr2)
         | Inr current_nounce \<Rightarrow>
             if current_nounce > previous_nonce then (Inr (), tr2)
             else nonce_loop read_web3 addr previous_nonce rest tr2)"

text \<open>
  The loop followed by
  \<^verbatim>\<open>wait_for_transaction_receipt(transaction_hash, timeout=120, poll_latency=20)\<close>,
  the statement that follows it in both functions.
\<close>

definition confirmation_wait ::
  "web3 \<Rightarrow> address \<Rightarrow> int \<Rightarrow> string \<Rightarrow> event list \<Rightarrow> (py_exception + receipt) \<times> event list" where
  "confirmation_wait read_web3 addr previous_nonce transaction_hash tr =
     (case nonce_loop read_web3 addr previous_nonce [0..<10] tr of
        (Inl e, tr1) \<Rightarrow> (Inl e, tr1)
      | (Inr u, tr1) \<Rightarrow>
          (let answer = eth_wait_for_transaction_receipt read_web3 tr1 transaction_hash 120 20
           in (answer, tr1 @ [Call_wait_for_transaction_receipt transaction_hash 120 20 answer])))"

subsection \<open>Submitting a signed transaction\<close>

text \<open>The dict that \<^verbatim>\<open>send_raw_transaction\<close> returns; both values are \<^verbatim>\<open>None\<close>.\<close>

record send_result =
  res_transaction :: "signed_transaction option"
  res_current_cid_commit :: "string option"

text \<open>The statements inside \<^verbatim>\<open>try\<close>.\<close>

definition send_raw_transaction_try ::
  "signed_transaction \<Rightarrow> web3 \<Rightarrow> web3 \<Rightarrow> address \<Rightarrow> event list \<Rightarrow>
     (py_exception + receipt) \<times> event list" where
  "send_raw_transaction_try transaction write_web3 read_web3 worker_address tr =
     (let answer0 = eth_get_transaction_count read_web3 tr worker_address;
          tr1 = tr @ [Call_get_transaction_count worker_address answer0]
      in (case answer0 of
            Inl e \<Rightarrow> (Inl e, tr1)
          | Inr previous_nonce \<Rightarrow>
              (let answer1 = eth_send_raw_transaction write_web3 tr1 (rawTransaction transaction);
                   tr2 = tr1 @ [Call_send_raw_transaction (rawTransaction transaction) answer1]
               in (case answer1 of
                     Inl e \<Rightarrow> (Inl e, tr2)
                   | Inr transaction_hash \<Rightarrow>
                       (let tr3 = tr2 @ [Log INFO ''A transaction has been sent'' [],
                                         Log INFO ''Waiting for transaction confirmation'' []]
                        in confirmation_wait read_web3 worker_address previous_nonce
                             transaction_hash tr3)))))"

text \<open>
  The whole function: the handler \<^verbatim>\<open>except Exception as e\<close> logs the exception, and
  the two statements after the \<^verbatim>\<open>try\<close> run in either case.
\<close>

definition send_raw_transaction ::
  "signed_transaction \<Rightarrow> web3 \<Rightarrow> web3 \<Rightarrow> address \<Rightarrow> event list \<Rightarrow>
     (py_exception + send_result) \<times> event list" where
  "send_raw_transaction transaction write_web3 read_web3 worker_address tr =
     (let (attempt, tr1) = send_raw_transaction_try transaction write_web3 read_web3 worker_address tr;
          tr2 = (case attempt of
                   Inl e \<Rightarrow> tr1 @ [Log ERROR ''Error sending transaction : {e}'' [Exc e]]
                 | Inr r \<Rightarrow> tr1);
          tr3 = tr2 @ [Log INFO ''A transaction has been confirmed'' []]
      in (Inr \<lparr>res_transaction = None, res_current_cid_commit = None\<rparr>, tr3))"

subsection \<open>Reading the nonce\<close>

text \<open>
  \<^verbatim>\<open>nonce\<close> returns the count, or logs and falls off the end of the function, which
  in Python returns \<^verbatim>\<open>None\<close>.
\<close>

definition nonce ::
  "address \<Rightarrow> web3 \<Rightarrow> event list \<Rightarrow> (py_exception + int option) \<times> event list" where
  "nonce worker_address read_web3 tr =
     (let answer = eth_get_transaction_count read_web3 tr worker_address;
          tr1 = tr @ [Call_get_transaction_count worker_address answer]
      in case answer of
           Inr n \<Rightarrow> (Inr (Some n), tr1)
         | Inl e \<Rightarrow>
             (Inr None, tr1 @ [Log ERROR ''Error getting nonce ({worker_address})''
                                 [Str worker_address]]))"

subsection \<open>Rotating the content gateways\<close>

definition gateways :: "string list" where
  "gateways =
     [''http://ipfs-gateway.exorde.network/ipfs/'',
      ''http://ipfs-gateway.exorde.network/ipfs/'',
      ''http://ipfs-gateway.exorde.network/ipfs/'',
      ''https://w3s.link/ipfs/'',
      ''https://ipfs.io/ipfs/'',
      ''https://ipfs.eth.aragon.network/ipfs/'',
      ''https://api.ipfsbrowser.com/ipfs/get.php?hash='']"

text \<open>
  The generator \<^verbatim>\<open>(gateways[i % len(gateways)] for i in itertools.count())\<close> is the
  stream of its values; \<open>fromN 0\<close> is \<^verbatim>\<open>itertools.count()\<close>. Every call of
  \<^verbatim>\<open>rotate_gateways\<close> builds a new generator, so every call denotes this same stream
  from its first element. The index is below the length of the list, so the read never
  fails.
\<close>

definition rotate_gateways :: "string stream" where
  "rotate_gateways = smap (\<lambda>i. gateways ! (i mod length gateways)) (fromN 0)"

subsection \<open>Selecting a faucet\<close>

text \<open>
  The random source is a parameter: \<open>r\<close> is the raw draw of the generator, any natural
  number. \<^verbatim>\<open>random.randrange(start, stop, step)\<close> with a positive step and
  \<open>start < stop\<close> returns \<open>start + step * k\<close> for a \<open>k\<close> that the generator picks
  below the number of values in the range; \<open>randbelow\<close> is that pick.
\<close>

definition randbelow :: "nat \<Rightarrow> nat \<Rightarrow> nat" where
  "randbelow n r = r mod n"

definition randrange :: "nat \<Rightarrow> int \<Rightarrow> int \<Rightarrow> int \<Rightarrow> int" where
  "randrange r start stop step =
     (let width = stop - start;
          n = (width + step - 1) div step
      in start + step * int (randbelow (nat n) r))"

text \<open>
  \<^verbatim>\<open>"%0.4x" % n\<close>: the lower-case hexadecimal digits of a non-negative \<open>n\<close>, with
  zeros in front up to the precision of four digits, and no truncation beyond it.
\<close>

definition hex_digits :: string where
  "hex_digits = ''0123456789abcdef''"

definition hex_digit :: "nat \<Rightarrow> char" where
  "hex_digit d = hex_digits ! d"

function to_hex :: "nat \<Rightarrow> string" where
  "to_hex n = (if n < 16 then [hex_digit n] else to_hex (n div 16) @ [hex_digit (n mod 16)])"
  by pat_completeness auto
termination
  by (relation "measure (\<lambda>n. n)") auto

definition format_04x :: "nat \<Rightarrow> string" where
  "format_04x n = (let digits = to_hex n in replicate (4 - length digits) CHR ''0'' @ digits)"

definition private_key_base :: string where
  "private_key_base = ''deaddeaddeaddead5fb92d83ed54c0ea1eb74e72a84ef980d42953caaa6d''"

definition select_random_faucet :: "nat \<Rightarrow> int \<times> string" where
  "select_random_faucet r =
     (let selected_faucet_index = randrange r 0 (499 + 1) 1;
          hex_selector_bytes = format_04x (nat selected_faucet_index);
          faucet_private_key = private_key_base @ hex_selector_bytes
      in (selected_faucet_index, faucet_private_key))"

text \<open>Reading a hexadecimal numeral back, to say what a representation represents.\<close>

definition hex_digit_value :: "char \<Rightarrow> nat" where
  "hex_digit_value c = length (takeWhile (\<lambda>d. d \<noteq> c) hex_digits)"

definition hex_value :: "string \<Rightarrow> nat" where
  "hex_value s = foldl (\<lambda>acc c. 16 * acc + hex_digit_value c) 0 s"

subsection \<open>Call data as a hex string\<close>

text \<open>
  The \<^verbatim>\<open>"data"\<close> of a built transaction is the hex string of its call data:
  \<^verbatim>\<open>0x\<close>, then two lower-case digits for each byte. The payload is the list of the
  bytes, each below 256; its first four bytes are the function selector.
\<close>

definition byte_hex :: "nat \<Rightarrow> string" where
  "byte_hex b = [hex_digit (b div 16), hex_digit (b mod 16)]"

definition hex_string :: "nat list \<Rightarrow> string" where
  "hex_string payload = ''0x'' @ concat (map byte_hex payload)"

subsection \<open>Funding the worker from a faucet\<close>

text \<open>
  A call of \<^verbatim>\<open>faucet\<close> ends in one of three ways: it returns, it raises, or
  \<^verbatim>\<open>os._exit(1)\<close> ends the process.
\<close>

datatype 'a outcome = Returned 'a | Raised py_exception | Exited int

text \<open>
  \<^verbatim>\<open>Web3.is_address\<close>, a pure check of the address format, is the parameter
  \<open>is_address\<close>. \<^verbatim>\<open>from_key\<close> and \<^verbatim>\<open>sign_transaction\<close> compute locally; they
  are recorded in the trace like the remote calls, so that the trace shows whether signing
  took place. The function has no handler: every exception leaves through it.
\<close>

definition faucet ::
  "(string \<Rightarrow> bool) \<Rightarrow> int \<Rightarrow> web3 \<Rightarrow> web3 \<Rightarrow> int \<times> string \<Rightarrow> address \<Rightarrow> event list \<Rightarrow>
     unit outcome \<times> event list" where
  "faucet is_address balance write_web3 read_web3 selected_faucet worker_address tr =
     (if \<not> is_address worker_address
      then (Exited 1, tr @ [Log CRITICAL ''Invalid worker address'' []])
      else
        let tr1 = tr @ [Log INFO ''Faucet with '{selected_faucet} and {worker_address}''
                          [Num (of_int (fst selected_faucet)), Str (snd selected_faucet),
                           Str worker_address]];
            answer1 = eth_account_from_key read_web3 tr1 (snd selected_faucet);
            tr2 = tr1 @ [Call_from_key (snd selected_faucet) answer1]
        in (case answer1 of
              Inl e \<Rightarrow> (Raised e, tr2)
            | Inr faucet_address \<Rightarrow>
        (let answer2 = eth_get_transaction_count read_web3 tr2 faucet_address;
             tr3 = tr2 @ [Call_get_transaction_count faucet_address answer2]
         in (case answer2 of
               Inl e \<Rightarrow> (Raised e, tr3)
             | Inr previous_nounce \<Rightarrow>
        (let request = \<lparr>tr_nonce = previous_nounce, tr_gasPrice = 500000, tr_gas = 100000,
                        tr_to = worker_address, tr_value = 500000000000000,
                        tr_data = ''Hi Exorde!''\<rparr>;
             answer3 = eth_account_sign_transaction read_web3 tr3 request (snd selected_faucet);
             tr4 = tr3 @ [Call_sign_transaction request (snd selected_faucet) answer3]
         in (case answer3 of
               Inl e \<Rightarrow> (Raised e, tr4)
             | Inr signed_transaction \<Rightarrow>
        (let answer4 = eth_send_raw_transaction write_web3 tr4 (rawTransaction signed_transaction);
             tr5 = tr4 @ [Call_send_raw_transaction (rawTransaction signed_transaction) answer4]
         in (case answer4 of
               Inl e \<Rightarrow> (Raised e, tr5)
             | Inr transaction_hash \<Rightarrow>
        (let tr6 = tr5 @ [Sleep 3, Log INFO ''Waiting for transaction confirmation'' []]
         in (case confirmation_wait read_web3 faucet_address previous_nounce transaction_hash tr6 of
               (Inl e, tr7) \<Rightarrow> (Raised e, tr7)
             | (Inr transaction_receipt, tr7) \<Rightarrow>
                 (Returned (),
                  tr7 @ [Log INFO ''SFUEL funding transaction {transaction_receipt.transactionHash.hex()}''
                           [Str (transactionHash transaction_receipt)]])))))))))))"

text \<open>The events that reach a node or use the faucet's key.\<close>

fun is_call :: "event \<Rightarrow> bool" where
  "is_call (Sleep d) = False"
| "is_call (Log l m a) = False"
| "is_call e = True"

subsection \<open>Reading a trace\<close>

fun sleeps :: "event list \<Rightarrow> py_number list" where
  "sleeps [] = []"
| "sleeps (Sleep d # tr) = d # sleeps tr"
| "sleeps (e # tr) = sleeps tr"

fun count_reads :: "event list \<Rightarrow> (py_exception + int) list" where
  "count_reads [] = []"
| "count_reads (Call_get_transaction_count a answer # tr) = answer # count_reads tr"
| "count_reads (e # tr) = count_reads tr"

fun receipt_waits :: "event list \<Rightarrow> (string \<times> py_number \<times> py_number) list" where
  "receipt_waits [] = []"
| "receipt_waits (Call_wait_for_transaction_receipt h t p answer # tr) = (h, t, p) # receipt_waits tr"
| "receipt_waits (e # tr) = receipt_waits tr"

text \<open>
  The events of the polling loop. Round \<open>i\<close> logs and sleeps \<open>i * 1.5 + 1\<close> seconds,
  then reads the transaction count of the polled address and records the answer.
  \<open>rounds_events\<close> are the events of the rounds that got the given answers, in order,
  and \<open>poll_events\<close> those of the rounds \<open>0, 1, \<dots>\<close>.
\<close>

definition sleep_events :: "nat \<Rightarrow> event list" where
  "sleep_events i =
     [Log DEBUG ''Waiting {sleep_time} seconds for faucet transaction confirmation''
        [Num (of_nat i * 1.5 + 1)],
      Sleep (of_nat i * 1.5 + 1)]"

definition round_events :: "address \<Rightarrow> nat \<Rightarrow> (py_exception + int) \<Rightarrow> event list" where
  "round_events addr i answer = sleep_events i @ [Call_get_transaction_count addr answer]"

definition rounds_events ::
  "address \<Rightarrow> nat list \<Rightarrow> (py_exception + int) list \<Rightarrow> event list" where
  "rounds_events addr rounds answers = concat (map2 (round_events addr) rounds answers)"

definition poll_events :: "address \<Rightarrow> (py_exception + int) list \<Rightarrow> event list" where
  "poll_events addr answers = rounds_events addr [0..<length answers] answers"

text \<open>
  What a run of the polling loop over the rounds \<open>rounds\<close>, entered with the trace
  \<open>tr\<close>, has done when it ends with \<open>out\<close> after receiving \<open>answers\<close>: every answer
  is the node's answer for the polled address at the moment of the read, every answer
  but the last is a count that does not exceed the baseline, and the last one is the
  reason for stopping: an exception, a count above the baseline, or the last round.
\<close>

definition loop_post ::
  "web3 \<Rightarrow> address \<Rightarrow> int \<Rightarrow> nat list \<Rightarrow> event list \<Rightarrow> (py_exception + unit) \<Rightarrow>
   (py_exception + int) list \<Rightarrow> bool" where
  "loop_post read_web3 addr baseline rounds tr out answers \<longleftrightarrow>
      length answers \<le> length rounds \<and>
      (rounds \<noteq> [] \<longrightarrow> answers \<noteq> []) \<and>
      (\<forall>i < length answers.
         answers ! i =
           eth_get_transaction_count read_web3
             (tr @ rounds_events addr rounds (take i answers) @ sleep_events (rounds ! i)) addr) \<and>
      (\<forall>i. Suc i < length answers \<longrightarrow> (\<exists>c. answers ! i = Inr c \<and> c \<le> baseline)) \<and>
      (case out of
         Inl e \<Rightarrow> answers \<noteq> [] \<and> last answers = Inl e
       | Inr u \<Rightarrow>
           answers \<noteq> [] \<longrightarrow>
             (\<exists>c. last answers = Inr c \<and> (baseline < c \<or> length answers = length rounds)))"

subsection \<open>Concrete nodes and transactions\<close>

text \<open>
  A node that gives the same answers whatever happened before, and a node whose
  transaction count is 5 until \<open>n\<close> reads have been made and 6 from then on.
\<close>

definition constant_node ::
  "(py_exception + int) \<Rightarrow> (py_exception + int) \<Rightarrow> (py_exception + string) \<Rightarrow>
   (py_exception + receipt) \<Rightarrow> web3" where
  "constant_node count estimate sent rcpt =
     \<lparr>eth_get_transaction_count = (\<lambda>tr a. count),
      eth_estimate_gas = (\<lambda>tr t. estimate),
      eth_send_raw_transaction = (\<lambda>tr raw. sent),
      eth_wait_for_transaction_receipt = (\<lambda>tr h t p. rcpt),
      eth_account_from_key = (\<lambda>tr k. Inr ''0x00000000000000000000000000000000000000fa''),
      eth_account_sign_transaction = (\<lambda>tr t k. Inr \<lparr>rawTransaction = ''0xf86b'', hash = ''0xabcd''\<rparr>)\<rparr>"

definition mining_node :: "nat \<Rightarrow> web3" where
  "mining_node n =
     (constant_node (Inr 5) (Inr 21000) (Inr ''0xabcd'') (Inr \<lparr>transactionHash = ''0xabcd''\<rparr>))
       \<lparr>eth_get_transaction_count := (\<lambda>tr a. Inr (if length (count_reads tr) < n then 5 else 6))\<rparr>"

text \<open>
  A node that answers the first read of the transaction count and cannot be reached for
  the later ones, and a node whose estimator fails once and answers from then on.
\<close>

definition flaky_node :: web3 where
  "flaky_node =
     (constant_node (Inr 5) (Inr 21000) (Inr ''0xabcd'') (Inr \<lparr>transactionHash = ''0xabcd''\<rparr>))
       \<lparr>eth_get_transaction_count :=
          (\<lambda>tr a. if count_reads tr = [] then Inr 5 else Inl (RPCError ''connection refused''))\<rparr>"

definition recovering_node :: web3 where
  "recovering_node =
     (constant_node (Inr 5) (Inr 21000) (Inr ''0xabcd'') (Inr \<lparr>transactionHash = ''0xabcd''\<rparr>))
       \<lparr>eth_estimate_gas :=
          (\<lambda>tr t. if estimator_calls tr = 0 then Inl (RPCError ''connection refused'')
                   else Inr 50000)\<rparr>"

definition mined :: receipt where
  "mined = \<lparr>transactionHash = ''0xabcd''\<rparr>"

definition estimating_node :: "(py_exception + int) \<Rightarrow> web3" where
  "estimating_node estimate = constant_node (Inr 5) estimate (Inr ''0xabcd'') (Inr mined)"

definition rejecting_node :: web3 where
  "rejecting_node =
     constant_node (Inr 5) (Inr 21000) (Inl (RPCError ''nonce too low'')) (Inr mined)"

definition stuck_node :: web3 where
  "stuck_node =
     constant_node (Inr 5) (Inr 21000) (Inr ''0xabcd'')
       (Inl (TimeExhausted ''Transaction is not in the chain after 120 seconds''))"

definition offline_node :: web3 where
  "offline_node =
     constant_node (Inl (RPCError ''connection refused'')) (Inl (RPCError ''connection refused''))
       (Inl (RPCError ''connection refused'')) (Inl (RPCError ''connection refused''))"

text \<open>A stand-in for the format check: \<^verbatim>\<open>0x\<close> and forty more characters.\<close>

definition has_address_shape :: "string \<Rightarrow> bool" where
  "has_address_shape a \<longleftrightarrow> length a = 42 \<and> take 2 a = ''0x''"

definition call_tx :: "string \<Rightarrow> transaction" where
  "call_tx d = \<lparr>tx_from = ''0x00000000000000000000000000000000000000aa'', tx_nonce = 7,
                tx_gasPrice = 100000, tx_data = d, tx_gas = None\<rparr>"

definition no_cache :: gas_cache where
  "no_cache = Map.empty"

definition signed_tx :: signed_transaction where
  "signed_tx = \<lparr>rawTransaction = ''0xf86b'', hash = ''0xabcd''\<rparr>"

section \<open>Properties\<close>

subsection \<open>Rounding to binary64\<close>

text \<open>
  The exponent brackets its argument between two powers of two, rounding to the nearest
  integer moves a number by at most one half, and so a number below \<open>600_000\<close> rounds
  to a float of at most \<open>600_001\<close>, and an integer rounds to a finite float exactly
  when its magnitude is below \<open>2^1024 - 2^970\<close>, the midpoint between the largest
  float and \<open>2^1024\<close>.
\<close>

declare bit_length.simps [simp del]

lemma pow2_pos [simp]: "0 < pow2 k"
  by (simp add: pow2_def)

lemma pow2_nat: "pow2 (int n) = 2 ^ n"
  by (simp add: pow2_def)

lemma pow2_add: "pow2 (j + k) = pow2 j * pow2 k"
proof -
  have "pow2 k = 2 powi k" for k
    by (simp add: pow2_def power_int_def field_simps)
  then show ?thesis by (simp add: power_int_add)
qed

lemma pow2_mono: "j \<le> k \<Longrightarrow> pow2 j \<le> pow2 k"
proof -
  assume "j \<le> k"
  then obtain n where k: "k = j + int n" by (metis zle_iff_zadd)
  have "(1::rat) \<le> 2 ^ n" by simp
  then have "pow2 j * 1 \<le> pow2 j * 2 ^ n"
    by (intro mult_left_mono) (simp_all add: less_imp_le)
  then show ?thesis by (simp add: k pow2_add pow2_nat)
qed

lemma pow2_less_cancel: "pow2 j < pow2 k \<Longrightarrow> j < k"
  using pow2_mono [of k j] by (cases "j < k") auto

lemma bit_length_bounds:
  "0 < n \<Longrightarrow> 2 ^ (bit_length n - 1) \<le> n \<and> n < 2 ^ bit_length n"
proof (induction n rule: bit_length.induct)
  case (1 n)
  show ?case
  proof (cases "n div 2 \<le> 0")
    case True
    with "1.prems" have "n = 1" by linarith
    then show ?thesis by (simp add: bit_length.simps [of 1] bit_length.simps [of 0])
  next
    case False
    then have pos: "0 < n div 2" by simp
    with "1.IH" "1.prems" have
      ih: "2 ^ (bit_length (n div 2) - 1) \<le> n div 2" "n div 2 < 2 ^ bit_length (n div 2)"
      by simp_all
    have bl: "bit_length n = Suc (bit_length (n div 2))"
      using "1.prems" by (simp add: bit_length.simps [of n])
    have "0 < bit_length (n div 2)" using pos by (simp add: bit_length.simps [of "n div 2"])
    then obtain k where k: "bit_length (n div 2) = Suc k" by (cases "bit_length (n div 2)") auto
    have "2 * 2 ^ k \<le> n" using ih(1) k by simp
    moreover have "n < 2 * 2 ^ Suc k" using ih(2) k by simp
    ultimately show ?thesis by (simp add: bl k)
  qed
qed

lemma exponent_bounds:
  assumes "1 \<le> x"
  shows "0 \<le> exponent x" and "pow2 (exponent x) \<le> x" and "x < pow2 (exponent x + 1)"
proof -
  have fl: "1 \<le> \<lfloor>x\<rfloor>" using assms by simp
  then have pos: "0 < \<lfloor>x\<rfloor>" by simp
  note b = bit_length_bounds [OF pos]
  have "0 < bit_length \<lfloor>x\<rfloor>" using pos by (simp add: bit_length.simps [of "\<lfloor>x\<rfloor>"])
  then obtain k where k: "bit_length \<lfloor>x\<rfloor> = Suc k" by (cases "bit_length \<lfloor>x\<rfloor>") auto
  have e: "exponent x = int k" using assms by (simp add: exponent_def k)
  show "0 \<le> exponent x" by (simp add: e)
  have "(2::int) ^ k \<le> \<lfloor>x\<rfloor>" using b k by simp
  then have "of_int ((2::int) ^ k) \<le> (of_int \<lfloor>x\<rfloor> :: rat)" by (simp only: of_int_le_iff)
  also have "\<dots> \<le> x" by simp
  finally show "pow2 (exponent x) \<le> x" by (simp add: e pow2_nat)
  have "\<lfloor>x\<rfloor> + 1 \<le> 2 ^ Suc k" using b k by simp
  then have "(of_int (\<lfloor>x\<rfloor> + 1) :: rat) \<le> of_int (2 ^ Suc k)" by (simp only: of_int_le_iff)
  moreover have "x < of_int (\<lfloor>x\<rfloor> + 1)" by linarith
  ultimately have "x < of_int (2 ^ Suc k)" by linarith
  then show "x < pow2 (exponent x + 1)"
    using pow2_nat [of "Suc k"] by (simp add: e add.commute)
qed

lemma exponent_le_0: "x < 1 \<Longrightarrow> exponent x \<le> 0"
  by (simp add: exponent_def)

lemma round_half_even_bounds:
  "of_int (round_half_even q) \<le> q + 1 / 2" "q - 1 / 2 \<le> of_int (round_half_even q)"
  unfolding round_half_even_def Let_def by (auto; linarith)+

lemma round_half_even_ge: "of_int n \<le> q \<Longrightarrow> n \<le> round_half_even q"
proof -
  assume "of_int n \<le> q"
  then have "n \<le> \<lfloor>q\<rfloor>" by (simp add: le_floor_iff)
  then show ?thesis unfolding round_half_even_def Let_def by auto
qed

lemma round_half_even_le: "q \<le> of_int n \<Longrightarrow> round_half_even q \<le> n"
proof -
  assume q: "q \<le> of_int n"
  show ?thesis
  proof (cases "q = of_int n")
    case True
    then show ?thesis by (simp add: round_half_even_def)
  next
    case False
    with q have "q < of_int n" by simp
    then have "\<lfloor>q\<rfloor> < n" by (simp add: floor_less_iff)
    then show ?thesis unfolding round_half_even_def Let_def by auto
  qed
qed

lemma round_half_even_less: "q < of_int N - 1 / 2 \<Longrightarrow> round_half_even q < N"
proof -
  assume "q < of_int N - 1 / 2"
  with round_half_even_bounds(1) [of q] have "(of_int (round_half_even q) :: rat) < of_int N"
    by linarith
  then show ?thesis by (simp only: of_int_less_iff)
qed

lemma round_half_even_tie_up:
  assumes "of_int N - 1 / 2 \<le> q" and "even N"
  shows "N \<le> round_half_even q"
proof -
  have "of_int (N - 1) \<le> q" using assms(1) by simp
  then have f: "N - 1 \<le> \<lfloor>q\<rfloor>" by (simp only: le_floor_iff)
  show ?thesis
  proof (cases "N \<le> \<lfloor>q\<rfloor>")
    case True
    then show ?thesis unfolding round_half_even_def Let_def by auto
  next
    case False
    with f have eq: "\<lfloor>q\<rfloor> = N - 1" by simp
    then have "odd \<lfloor>q\<rfloor>" using assms(2) by simp
    moreover have "\<not> q - of_int \<lfloor>q\<rfloor> < 1 / 2" using assms(1) eq by simp
    ultimately show ?thesis unfolding round_half_even_def Let_def using eq by auto
  qed
qed

lemma round_binary64_small:
  assumes "x < 600000"
  shows "round_binary64 x = NegInf \<or> (\<exists>y. round_binary64 x = Finite y \<and> y \<le> 600001)"
proof -
  consider "x = 0" | "x < 0" | "0 < x" by linarith
  then show ?thesis
  proof cases
    case 1
    then show ?thesis by (simp add: round_binary64_def)
  next
    case 2
    define ulp where "ulp = pow2 (max (exponent \<bar>x\<bar>) (- 1022) - 52)"
    define y where "y = of_int (round_half_even (\<bar>x\<bar> / ulp)) * ulp"
    have "0 < ulp" by (simp add: ulp_def)
    then have "(of_int 0 :: rat) \<le> \<bar>x\<bar> / ulp" by simp
    then have "0 \<le> round_half_even (\<bar>x\<bar> / ulp)" by (rule round_half_even_ge)
    then have "0 \<le> y" using \<open>0 < ulp\<close> by (simp add: y_def)
    moreover have "round_binary64 x = (if pow2 1024 \<le> y then NegInf else Finite (- y))"
      using 2 by (simp add: round_binary64_def Let_def ulp_def y_def)
    ultimately show ?thesis by auto
  next
    case 3
    define e where "e = max (exponent x) (- 1022)"
    define ulp where "ulp = pow2 (e - 52)"
    define y where "y = of_int (round_half_even (x / ulp)) * ulp"
    have "exponent x < 20"
    proof (cases "1 \<le> x")
      case True
      from exponent_bounds(2) [OF True] assms have "pow2 (exponent x) < 600000" by linarith
      also have "(600000 :: rat) < pow2 20" by (simp add: pow2_def)
      finally show ?thesis by (rule pow2_less_cancel)
    next
      case False
      then show ?thesis using exponent_le_0 [of x] by simp
    qed
    then have "e - 52 \<le> - 33" by (simp add: e_def)
    then have "ulp \<le> pow2 (- 33)" unfolding ulp_def by (rule pow2_mono)
    also have "pow2 (- 33) \<le> 1" by (simp add: pow2_def)
    finally have u1: "ulp \<le> 1" .
    have u0: "0 < ulp" by (simp add: ulp_def)
    have "of_int (round_half_even (x / ulp)) \<le> x / ulp + 1 / 2"
      by (rule round_half_even_bounds)
    then have "y \<le> (x / ulp + 1 / 2) * ulp"
      unfolding y_def using u0 by (intro mult_right_mono) simp_all
    also have "\<dots> = x + ulp / 2" using u0 by (simp add: field_simps)
    finally have yb: "y \<le> 600001" using u1 assms by linarith
    have "(600001 :: rat) < pow2 1024" by (simp add: pow2_def)
    with yb have "\<not> pow2 1024 \<le> y" by linarith
    moreover have "round_binary64 x = (if pow2 1024 \<le> y then PosInf else Finite y)"
      using 3 by (simp add: round_binary64_def Let_def e_def ulp_def y_def)
    ultimately show ?thesis using yb by auto
  qed
qed

lemma round_binary64_of_int_finite_iff:
  "(\<exists>y. round_binary64 (of_int n) = Finite y) \<longleftrightarrow> \<bar>n\<bar> < 2 ^ 1024 - 2 ^ 970"
proof (cases "n = 0")
  case True
  then show ?thesis by (simp add: round_binary64_def)
next
  case False
  define a :: rat where "a = of_int \<bar>n\<bar>"
  have a1: "1 \<le> a" using False by (simp add: a_def)
  define e where "e = exponent a"
  define ulp where "ulp = pow2 (e - 52)"
  define m where "m = round_half_even (a / ulp)"
  define y where "y = of_int m * ulp"
  note eb = exponent_bounds [OF a1, folded e_def]
  have u0: "0 < ulp" by (simp add: ulp_def)
  have abs: "\<bar>of_int n :: rat\<bar> = a" by (simp add: a_def)
  have rb: "round_binary64 (of_int n) =
      (if pow2 1024 \<le> y then (if n < 0 then NegInf else PosInf)
       else Finite (if n < 0 then - y else y))"
    using False eb(1)
    by (simp add: round_binary64_def Let_def abs e_def [symmetric] ulp_def [symmetric]
        m_def [symmetric] y_def [symmetric] max_def)
  then have fin: "(\<exists>y'. round_binary64 (of_int n) = Finite y') \<longleftrightarrow> y < pow2 1024"
    by auto
  have "52 + (e - 52) = e" "53 + (e - 52) = e + 1" by simp_all
  with pow2_add [of 52 "e - 52"] pow2_add [of 53 "e - 52"]
  have p: "pow2 e = pow2 52 * ulp" "pow2 (e + 1) = pow2 53 * ulp"
    unfolding ulp_def by (simp_all only:)
  have n52: "pow2 52 = 2 ^ 52" "pow2 53 = 2 ^ 53" by (simp_all add: pow2_def)
  have thr: "(2 :: rat) ^ 1024 - 2 ^ 970 = (2 ^ 53 - 1 / 2) * 2 ^ 971" by simp
  consider "e \<le> 1022" | "e = 1023" | "1024 \<le> e" by linarith
  then have "y < pow2 1024 \<longleftrightarrow> a < 2 ^ 1024 - 2 ^ 970"
  proof cases
    case 1
    have "a < pow2 53 * ulp" using eb(3) p by simp
    then have "a / ulp < pow2 53" using u0 by (simp add: pos_divide_less_eq)
    then have "a / ulp \<le> of_int (2 ^ 53)" by (simp add: n52)
    then have "m \<le> 2 ^ 53" unfolding m_def by (rule round_half_even_le)
    then have "(of_int m :: rat) \<le> of_int (2 ^ 53)" by (simp only: of_int_le_iff)
    then have "y \<le> pow2 53 * ulp"
      unfolding y_def using u0 by (intro mult_right_mono) (simp_all add: n52)
    also have "\<dots> = pow2 (e + 1)" by (simp add: p)
    also have "\<dots> \<le> pow2 1023" using 1 by (intro pow2_mono) simp
    finally have y: "y \<le> pow2 1023" .
    have "a < pow2 (e + 1)" by (rule eb)
    also have "\<dots> \<le> pow2 1023" using 1 by (intro pow2_mono) simp
    finally have "a < pow2 1023" .
    moreover have "pow2 1023 < pow2 1024" "pow2 1023 < 2 ^ 1024 - 2 ^ 970"
      by (simp_all add: pow2_def)
    ultimately show ?thesis using y by linarith
  next
    case 2
    have ulp: "ulp = 2 ^ 971" by (simp add: ulp_def 2 pow2_def)
    have "y < pow2 1024 \<longleftrightarrow> of_int m * (2 :: rat) ^ 971 < of_int (2 ^ 53) * 2 ^ 971"
      by (simp add: y_def ulp pow2_def)
    also have "\<dots> \<longleftrightarrow> m < 2 ^ 53"
      by (simp only: mult_less_cancel_right_pos zero_less_power zero_less_numeral of_int_less_iff)
    also have "\<dots> \<longleftrightarrow> a < 2 ^ 1024 - 2 ^ 970"
    proof
      assume m: "m < 2 ^ 53"
      show "a < 2 ^ 1024 - 2 ^ 970"
      proof (rule ccontr)
        assume "\<not> a < 2 ^ 1024 - 2 ^ 970"
        then have "(2 ^ 53 - 1 / 2) * 2 ^ 971 \<le> a" by (simp only: thr not_less)
        then have "of_int (2 ^ 53) - 1 / 2 \<le> a / ulp"
          by (simp add: ulp field_simps)
        then have "2 ^ 53 \<le> m" unfolding m_def by (rule round_half_even_tie_up) simp
        with m show False by simp
      qed
    next
      assume "a < 2 ^ 1024 - 2 ^ 970"
      then have "a < (2 ^ 53 - 1 / 2) * 2 ^ 971" by (simp only: thr)
      then have "a / ulp < of_int (2 ^ 53) - 1 / 2"
        by (simp add: ulp field_simps)
      then show "m < 2 ^ 53" unfolding m_def by (rule round_half_even_less)
    qed
    finally show ?thesis .
  next
    case 3
    have "pow2 52 * ulp \<le> a" using eb(2) p by simp
    then have "pow2 52 \<le> a / ulp" using u0 by (simp add: pos_le_divide_eq)
    then have "of_int (2 ^ 52) \<le> a / ulp" by (simp add: n52)
    then have "2 ^ 52 \<le> m" unfolding m_def by (rule round_half_even_ge)
    then have "(of_int (2 ^ 52) :: rat) \<le> of_int m" by (simp only: of_int_le_iff)
    then have "pow2 52 * ulp \<le> y"
      unfolding y_def using u0 by (intro mult_right_mono) (simp_all add: n52)
    then have "pow2 e \<le> y" by (simp add: p)
    moreover have "pow2 1024 \<le> pow2 e" using 3 by (rule pow2_mono)
    ultimately have y: "pow2 1024 \<le> y" by linarith
    have "pow2 1024 \<le> a" using eb(2) \<open>pow2 1024 \<le> pow2 e\<close> by linarith
    moreover have "(2 :: rat) ^ 1024 - 2 ^ 970 < pow2 1024" by (simp add: pow2_def)
    ultimately show ?thesis using y by linarith
  qed
  also have "a < 2 ^ 1024 - 2 ^ 970 \<longleftrightarrow> \<bar>n\<bar> < 2 ^ 1024 - 2 ^ 970"
  proof -
    have "(2 :: rat) ^ 1024 - 2 ^ 970 = of_int (2 ^ 1024 - 2 ^ 970)" by simp
    then show ?thesis unfolding a_def by (simp only: of_int_less_iff)
  qed
  finally show ?thesis using fin by simp
qed

subsection \<open>Gas estimation\<close>

lemma int_times_float_cases:
  "int_times_float n c =
     (if \<bar>n\<bar> < 2 ^ 1024 - 2 ^ 970
      then Inr (round_binary64 ((case round_binary64 (of_int n) of Finite a \<Rightarrow> a | _ \<Rightarrow> 0) * c))
      else Inl (OverflowError ''int too large to convert to float''))"
  using round_binary64_of_int_finite_iff [of n]
  by (cases "round_binary64 (of_int n)") (auto simp: int_times_float_def)

text \<open>
  Whatever the scaled estimate is, the value of \<^verbatim>\<open>gas\<close> before the floor does not
  exceed \<open>10_000_000\<close>: it is the default, or the rounded sum of \<open>500_000\<close> and a
  float below \<open>100_000\<close>.
\<close>

lemma gas_before_floor_below:
  "\<not> exceeds (gas_before_floor estimate) 10000000"
proof (cases "float_less_int estimate 100000")
  case False
  then show ?thesis by (simp add: gas_before_floor_def)
next
  case True
  show ?thesis
  proof (cases estimate)
    case (Finite a)
    with True have "a + 500000 < 600000" by simp
    from round_binary64_small [OF this] show ?thesis
      using True Finite by (auto simp: gas_before_floor_def)
  next
    case PosInf
    with True show ?thesis by simp
  next
    case NegInf
    then show ?thesis by (simp add: gas_before_floor_def)
  qed
qed

lemma py_max_floor: "py_max 10000000 (gas_before_floor estimate) = PyInt 10000000"
  using gas_before_floor_below [of estimate] by (simp add: py_max_def)

lemma do_estimate_gas_answer:
  "do_estimate_gas transaction read_web3 tr =
     (case eth_estimate_gas read_web3 tr transaction of
        Inl e \<Rightarrow> Inl e
      | Inr raw \<Rightarrow>
          if \<bar>raw\<bar> < 2 ^ 1024 - 2 ^ 970 then Inr (PyInt 10000000)
          else Inl (OverflowError ''int too large to convert to float''),
      tr @ [Call_estimate_gas transaction (eth_estimate_gas read_web3 tr transaction)])"
  by (simp add: do_estimate_gas_def Let_def int_times_float_cases py_max_floor
      split: sum.splits)

lemma estimate_gas_hit:
  "gas_cache (gas_key transaction) = Some g \<Longrightarrow>
   estimate_gas transaction read_web3 gas_cache tr =
     (Inr (transaction\<lparr>tx_gas := Some g\<rparr>), gas_cache, tr)"
  by (simp add: estimate_gas_def)

lemma estimate_gas_miss:
  "gas_cache (gas_key transaction) = None \<Longrightarrow>
   eth_estimate_gas read_web3 tr transaction = Inr E \<Longrightarrow>
   \<bar>E\<bar> < 2 ^ 1024 - 2 ^ 970 \<Longrightarrow>
   estimate_gas transaction read_web3 gas_cache tr =
     (Inr (transaction\<lparr>tx_gas := Some (PyInt 10000000)\<rparr>),
      gas_cache(gas_key transaction \<mapsto> PyInt 10000000),
      tr @ [Call_estimate_gas transaction (Inr E)])"
  by (simp add: estimate_gas_def do_estimate_gas_answer)

lemma estimator_calls_append [simp]:
  "estimator_calls (tr @ tr') = estimator_calls tr + estimator_calls tr'"
  by (simp add: estimator_calls_def)

lemma estimator_calls_single [simp]:
  "estimator_calls [Call_estimate_gas t a] = 1"
  by (simp add: estimator_calls_def)

text \<open>
  Claim C1, as amended. For a transaction whose key is absent from the cache and a remote
  estimator that returns a raw value \<open>E\<close> that Python can convert to a float, which
  are the \<open>E\<close> of magnitude below \<open>2^1024 - 2^970\<close>, the value stored in the cache and
  assigned as the transaction's gas is the integer \<open>max(10_000_000, 100_000)\<close> when
  \<open>E * 1.5 \<ge> 100_000 * 1.5\<close>, and the integer \<open>max(10_000_000, E + 500_000)\<close>
  otherwise; both are \<open>10_000_000\<close>.
\<close>

theorem estimate_gas_miss_rule:
  assumes "gas_cache (gas_key transaction) = None"
      and "eth_estimate_gas read_web3 tr transaction = Inr E"
      and "\<bar>E\<bar> < 2 ^ 1024 - 2 ^ 970"
  shows "estimate_gas transaction read_web3 gas_cache tr =
           (let g = (if (100000 * 1.5 :: rat) \<le> of_int E * 1.5
                     then max 10000000 100000
                     else max 10000000 (E + 500000))
            in (Inr (transaction\<lparr>tx_gas := Some (PyInt g)\<rparr>),
                gas_cache(gas_key transaction \<mapsto> PyInt g),
                tr @ [Call_estimate_gas transaction (Inr E)]))"
proof -
  have "(if (100000 * 1.5 :: rat) \<le> of_int E * 1.5
         then max 10000000 100000
         else max 10000000 (E + 500000)) = 10000000"
  proof (cases "(100000 * 1.5 :: rat) \<le> of_int E * 1.5")
    case True
    then show ?thesis by simp
  next
    case False
    then have "(of_int E :: rat) < of_int 100000" by simp
    then have "E < 100000" by (simp only: of_int_less_iff)
    then show ?thesis using False by simp
  qed
  moreover have "estimate_gas transaction read_web3 gas_cache tr =
     (Inr (transaction\<lparr>tx_gas := Some (PyInt 10000000)\<rparr>),
      gas_cache(gas_key transaction \<mapsto> PyInt 10000000),
      tr @ [Call_estimate_gas transaction (Inr E)])"
    using assms by (rule estimate_gas_miss)
  ultimately show ?thesis by (simp only: Let_def)
qed

theorem estimate_gas_miss_rule_witness:
  "no_cache (gas_key (call_tx ''0xa9059cbb0001'')) = None
   \<and> eth_estimate_gas (estimating_node (Inr 50000)) [] (call_tx ''0xa9059cbb0001'') = Inr 50000
   \<and> \<bar>50000 :: int\<bar> < 2 ^ 1024 - 2 ^ 970
   \<and> estimate_gas (call_tx ''0xa9059cbb0001'') (estimating_node (Inr 50000)) no_cache [] =
       (Inr ((call_tx ''0xa9059cbb0001'')\<lparr>tx_gas := Some (PyInt 10000000)\<rparr>),
        no_cache(gas_key (call_tx ''0xa9059cbb0001'') \<mapsto> PyInt 10000000),
        [Call_estimate_gas (call_tx ''0xa9059cbb0001'') (Inr 50000)])"
proof -
  have miss: "no_cache (gas_key (call_tx ''0xa9059cbb0001'')) = None"
    by (simp add: no_cache_def)
  have est: "eth_estimate_gas (estimating_node (Inr 50000)) [] (call_tx ''0xa9059cbb0001'') = Inr 50000"
    by (simp add: estimating_node_def constant_node_def)
  have range: "\<bar>50000 :: int\<bar> < 2 ^ 1024 - 2 ^ 970" by simp
  show ?thesis
    using miss est range
      estimate_gas_miss_rule [of no_cache "call_tx ''0xa9059cbb0001''"
        "estimating_node (Inr 50000)" "[]" 50000]
    by simp
qed

text \<open>
  The claim as first stated gives \<open>max(10_000_000, E * 1.5)\<close> for
  \<open>E * 1.5 \<ge> 100_000 * 1.5\<close>. At \<open>E = 10_000_000\<close> that is \<open>15_000_000\<close>, and the
  function stores and assigns \<open>10_000_000\<close>. At \<open>E = 10^400\<close> the multiplication
  raises and the function stores and assigns nothing.
\<close>

theorem estimate_gas_scaled_counterexample:
  "no_cache (gas_key (call_tx ''0xa9059cbb0001'')) = None
   \<and> eth_estimate_gas (estimating_node (Inr 10000000)) [] (call_tx ''0xa9059cbb0001'') = Inr 10000000
   \<and> (100000 * 1.5 :: rat) \<le> of_int 10000000 * 1.5
   \<and> fst (estimate_gas (call_tx ''0xa9059cbb0001'') (estimating_node (Inr 10000000)) no_cache [])
       = Inr ((call_tx ''0xa9059cbb0001'')\<lparr>tx_gas := Some (PyInt 10000000)\<rparr>)
   \<and> fst (snd (estimate_gas (call_tx ''0xa9059cbb0001'') (estimating_node (Inr 10000000)) no_cache []))
        (gas_key (call_tx ''0xa9059cbb0001'')) = Some (PyInt 10000000)
   \<and> (of_int 10000000 :: rat) \<noteq> max 10000000 (of_int 10000000 * 1.5)
   \<and> estimate_gas (call_tx ''0xa9059cbb0001'') (estimating_node (Inr (10 ^ 400))) no_cache [] =
       (Inl (OverflowError ''int too large to convert to float''), no_cache,
        [Call_estimate_gas (call_tx ''0xa9059cbb0001'') (Inr (10 ^ 400))])"
  by (simp add: estimate_gas_def do_estimate_gas_answer no_cache_def estimating_node_def
        constant_node_def)

text \<open>
  Claim C2, as amended. Two calls with transactions that share the function selector and
  the payload length, the second made with the cache and the trace the first one left.
  When the key is absent from the cache before the first call and the remote estimator
  answers the first call with a value that Python can convert to a float, both calls
  assign the same gas, the remote estimator is invoked exactly once, and the second call
  is a cache hit that adds nothing to the trace, whatever node it is given. When the key
  is in the cache before the first call, both calls assign the cached value and the
  estimator is not invoked.
\<close>

theorem estimate_gas_twice:
  assumes sel: "function_bytecode tx1 = function_bytecode tx2"
      and len: "data_length tx1 = data_length tx2"
      and ok: "gas_cache (gas_key tx1) = None \<longrightarrow>
                 eth_estimate_gas read_web3 tr tx1 = Inr E \<and> \<bar>E\<bar> < 2 ^ 1024 - 2 ^ 970"
  shows "(let miss = (gas_cache (gas_key tx1) = None);
              g = (if miss then PyInt 10000000 else the (gas_cache (gas_key tx1)));
              cache1 = (if miss then gas_cache(gas_key tx1 \<mapsto> g) else gas_cache);
              tr1 = (if miss then tr @ [Call_estimate_gas tx1 (Inr E)] else tr)
          in estimate_gas tx1 read_web3 gas_cache tr = (Inr (tx1\<lparr>tx_gas := Some g\<rparr>), cache1, tr1)
           \<and> estimate_gas tx2 read_web3' cache1 tr1 = (Inr (tx2\<lparr>tx_gas := Some g\<rparr>), cache1, tr1)
           \<and> estimator_calls tr1 = estimator_calls tr + (if miss then 1 else 0))"
proof -
  have key: "gas_key tx2 = gas_key tx1"
    using sel len by (simp add: gas_key_def)
  show ?thesis
  proof (cases "gas_cache (gas_key tx1)")
    case None
    with ok have est: "eth_estimate_gas read_web3 tr tx1 = Inr E"
      and range: "\<bar>E\<bar> < 2 ^ 1024 - 2 ^ 970" by simp_all
    define g where "g = PyInt 10000000"
    have first: "estimate_gas tx1 read_web3 gas_cache tr =
        (Inr (tx1\<lparr>tx_gas := Some g\<rparr>), gas_cache(gas_key tx1 \<mapsto> g),
         tr @ [Call_estimate_gas tx1 (Inr E)])"
      unfolding g_def using None est range by (rule estimate_gas_miss)
    have "(gas_cache(gas_key tx1 \<mapsto> g)) (gas_key tx2) = Some g"
      by (simp add: key)
    then have second: "estimate_gas tx2 read_web3' (gas_cache(gas_key tx1 \<mapsto> g))
        (tr @ [Call_estimate_gas tx1 (Inr E)]) =
        (Inr (tx2\<lparr>tx_gas := Some g\<rparr>), gas_cache(gas_key tx1 \<mapsto> g),
         tr @ [Call_estimate_gas tx1 (Inr E)])"
      by (rule estimate_gas_hit)
    show ?thesis using first second None by (simp add: Let_def g_def)
  next
    case (Some g)
    have "gas_cache (gas_key tx2) = Some g" using Some by (simp add: key)
    then have "estimate_gas tx2 read_web3' gas_cache tr =
        (Inr (tx2\<lparr>tx_gas := Some g\<rparr>), gas_cache, tr)"
      by (rule estimate_gas_hit)
    moreover have "estimate_gas tx1 read_web3 gas_cache tr =
        (Inr (tx1\<lparr>tx_gas := Some g\<rparr>), gas_cache, tr)"
      using Some by (rule estimate_gas_hit)
    ultimately show ?thesis using Some by (simp add: Let_def)
  qed
qed

theorem estimate_gas_twice_witness:
  "function_bytecode (call_tx ''0xa9059cbb0001'') = function_bytecode (call_tx ''0xa9059cbb0002'')
   \<and> data_length (call_tx ''0xa9059cbb0001'') = data_length (call_tx ''0xa9059cbb0002'')
   \<and> no_cache (gas_key (call_tx ''0xa9059cbb0001'')) = None
   \<and> eth_estimate_gas (estimating_node (Inr 50000)) [] (call_tx ''0xa9059cbb0001'') = Inr 50000
   \<and> \<bar>50000 :: int\<bar> < 2 ^ 1024 - 2 ^ 970
   \<and> estimate_gas (call_tx ''0xa9059cbb0001'') (estimating_node (Inr 50000)) no_cache [] =
       (Inr ((call_tx ''0xa9059cbb0001'')\<lparr>tx_gas := Some (PyInt 10000000)\<rparr>),
        no_cache(gas_key (call_tx ''0xa9059cbb0001'') \<mapsto> PyInt 10000000),
        [Call_estimate_gas (call_tx ''0xa9059cbb0001'') (Inr 50000)])
   \<and> estimate_gas (call_tx ''0xa9059cbb0002'') offline_node
        (no_cache(gas_key (call_tx ''0xa9059cbb0001'') \<mapsto> PyInt 10000000))
        [Call_estimate_gas (call_tx ''0xa9059cbb0001'') (Inr 50000)] =
       (Inr ((call_tx ''0xa9059cbb0002'')\<lparr>tx_gas := Some (PyInt 10000000)\<rparr>),
        no_cache(gas_key (call_tx ''0xa9059cbb0001'') \<mapsto> PyInt 10000000),
        [Call_estimate_gas (call_tx ''0xa9059cbb0001'') (Inr 50000)])
   \<and> estimator_calls [Call_estimate_gas (call_tx ''0xa9059cbb0001'') (Inr 50000)] =
       estimator_calls [] + 1"
proof -
  have sel: "function_bytecode (call_tx ''0xa9059cbb0001'') =
      function_bytecode (call_tx ''0xa9059cbb0002'')"
    by (simp add: function_bytecode_def call_tx_def)
  have len: "data_length (call_tx ''0xa9059cbb0001'') = data_length (call_tx ''0xa9059cbb0002'')"
    by (simp add: data_length_def call_tx_def)
  have miss: "no_cache (gas_key (call_tx ''0xa9059cbb0001'')) = None"
    by (simp add: no_cache_def)
  have est: "eth_estimate_gas (estimating_node (Inr 50000)) [] (call_tx ''0xa9059cbb0001'') = Inr 50000"
    by (simp add: estimating_node_def constant_node_def)
  have range: "\<bar>50000 :: int\<bar> < 2 ^ 1024 - 2 ^ 970" by simp
  have ok: "no_cache (gas_key (call_tx ''0xa9059cbb0001'')) = None \<longrightarrow>
        eth_estimate_gas (estimating_node (Inr 50000)) [] (call_tx ''0xa9059cbb0001'') = Inr 50000
        \<and> \<bar>50000 :: int\<bar> < 2 ^ 1024 - 2 ^ 970"
    using est range by simp
  note run = estimate_gas_twice [of "call_tx ''0xa9059cbb0001''" "call_tx ''0xa9059cbb0002''"
      no_cache "estimating_node (Inr 50000)" "[]" 50000 offline_node, OF sel len ok]
  show ?thesis using sel len miss est range run by (simp add: Let_def)
qed

text \<open>
  The claim as first stated has the estimator invoked exactly once for every such pair of
  calls, and both calls yield the same gas value. On a node whose estimator fails the
  first time and answers the second time, the first call raises and assigns no gas, the
  second call assigns \<open>10_000_000\<close>, and the estimator has been invoked twice.
\<close>

theorem estimate_gas_twice_counterexample:
  "function_bytecode (call_tx ''0xa9059cbb0001'') = function_bytecode (call_tx ''0xa9059cbb0002'')
   \<and> data_length (call_tx ''0xa9059cbb0001'') = data_length (call_tx ''0xa9059cbb0002'')
   \<and> estimate_gas (call_tx ''0xa9059cbb0001'') recovering_node no_cache [] =
       (Inl (RPCError ''connection refused''), no_cache,
        [Call_estimate_gas (call_tx ''0xa9059cbb0001'') (Inl (RPCError ''connection refused''))])
   \<and> fst (estimate_gas (call_tx ''0xa9059cbb0002'') recovering_node no_cache
        [Call_estimate_gas (call_tx ''0xa9059cbb0001'') (Inl (RPCError ''connection refused''))]) =
       Inr ((call_tx ''0xa9059cbb0002'')\<lparr>tx_gas := Some (PyInt 10000000)\<rparr>)
   \<and> estimator_calls (snd (snd (estimate_gas (call_tx ''0xa9059cbb0002'') recovering_node no_cache
        [Call_estimate_gas (call_tx ''0xa9059cbb0001'') (Inl (RPCError ''connection refused''))]))) = 2"
  by (simp add: estimate_gas_def do_estimate_gas_answer no_cache_def recovering_node_def
        constant_node_def function_bytecode_def data_length_def call_tx_def estimator_calls_def)

text \<open>
  The key in terms of the call data: the slice \<^verbatim>\<open>[2:10]\<close> of the hex string is the
  hex form of the first four bytes, and the length of the string is two more than twice
  the number of bytes. Two payloads with the same selector and the same length have the
  same key.
\<close>

lemma length_concat_byte_hex: "length (concat (map byte_hex p)) = 2 * length p"
  by (induction p) (simp_all add: byte_hex_def)

lemma take_concat_byte_hex:
  "take (2 * k) (concat (map byte_hex p)) = concat (map byte_hex (take k p))"
proof (induction p arbitrary: k)
  case Nil
  show ?case by simp
next
  case (Cons b p)
  show ?case
  proof (cases k)
    case 0
    then show ?thesis by simp
  next
    case (Suc k')
    then show ?thesis using Cons [of k'] by (simp add: byte_hex_def)
  qed
qed

lemma gas_key_hex_string:
  "gas_key (t\<lparr>tx_data := hex_string p\<rparr>) =
     (concat (map byte_hex (take 4 p)), 2 + 2 * length p)"
proof -
  have "take 8 (concat (map byte_hex p)) = concat (map byte_hex (take 4 p))"
    using take_concat_byte_hex [of 4 p] by simp
  then show ?thesis
    by (simp add: gas_key_def function_bytecode_def data_length_def hex_string_def
        length_concat_byte_hex)
qed

lemma same_selector_same_key:
  "take 4 p = take 4 q \<Longrightarrow> length p = length q \<Longrightarrow>
   gas_key (t\<lparr>tx_data := hex_string p\<rparr>) = gas_key (u\<lparr>tx_data := hex_string q\<rparr>)"
  by (simp add: gas_key_hex_string)

text \<open>
  Claim C6. On a key that is not in the cache, when the remote estimator raises, the call
  raises that same exception, and the cache is the one it was given: no entry is written.
  The only effect is the failed remote call.
\<close>

theorem estimate_gas_failure:
  assumes "gas_cache (gas_key transaction) = None"
      and "eth_estimate_gas read_web3 tr transaction = Inl e"
  shows "estimate_gas transaction read_web3 gas_cache tr =
           (Inl e, gas_cache, tr @ [Call_estimate_gas transaction (Inl e)])"
  using assms by (simp add: estimate_gas_def do_estimate_gas_answer)

theorem estimate_gas_failure_witness:
  "no_cache (gas_key (call_tx ''0xa9059cbb0001'')) = None
   \<and> eth_estimate_gas offline_node [] (call_tx ''0xa9059cbb0001'') =
       Inl (RPCError ''connection refused'')
   \<and> estimate_gas (call_tx ''0xa9059cbb0001'') offline_node no_cache [] =
       (Inl (RPCError ''connection refused''), no_cache,
        [] @ [Call_estimate_gas (call_tx ''0xa9059cbb0001'') (Inl (RPCError ''connection refused''))])"
proof -
  have miss: "no_cache (gas_key (call_tx ''0xa9059cbb0001'')) = None"
    by (simp add: no_cache_def)
  have est: "eth_estimate_gas offline_node [] (call_tx ''0xa9059cbb0001'') =
      Inl (RPCError ''connection refused'')"
    by (simp add: offline_node_def constant_node_def)
  show ?thesis
    using miss est
      estimate_gas_failure [of no_cache "call_tx ''0xa9059cbb0001''" offline_node "[]"
        "RPCError ''connection refused''"]
    by simp
qed

text \<open>
  Claim C10, as amended. On a cache miss, for every raw value \<open>E\<close> that Python can
  convert to a float, which are the \<open>E\<close> of magnitude below \<open>2^1024 - 2^970\<close>, and in
  particular for every non-negative \<open>E\<close> below that bound, the gas stored in the cache
  and assigned to the transaction is exactly the integer \<open>10_000_000\<close>: the value of
  \<^verbatim>\<open>gas\<close> before the floor never exceeds \<open>10_000_000\<close>, and when the scaled
  estimate is not below \<open>100_000\<close> it is the default \<open>100_000\<close>, not the scaled
  estimate. For every other \<open>E\<close> the multiplication raises \<^verbatim>\<open>OverflowError\<close>
  after the remote call, and nothing is stored or assigned.
\<close>

theorem estimate_gas_miss_always_floor:
  assumes "gas_cache (gas_key transaction) = None"
      and "eth_estimate_gas read_web3 tr transaction = Inr E"
  shows "estimate_gas transaction read_web3 gas_cache tr =
           (if \<bar>E\<bar> < 2 ^ 1024 - 2 ^ 970
            then (Inr (transaction\<lparr>tx_gas := Some (PyInt 10000000)\<rparr>),
                  gas_cache(gas_key transaction \<mapsto> PyInt 10000000),
                  tr @ [Call_estimate_gas transaction (Inr E)])
            else (Inl (OverflowError ''int too large to convert to float''), gas_cache,
                  tr @ [Call_estimate_gas transaction (Inr E)]))
       \<and> (\<forall>estimate. int_times_float E 1.5 = Inr estimate \<longrightarrow>
              \<not> exceeds (gas_before_floor estimate) 10000000
            \<and> (\<not> float_less_int estimate 100000 \<longrightarrow> gas_before_floor estimate = PyInt 100000))"
  using assms
  by (simp add: estimate_gas_def do_estimate_gas_answer gas_before_floor_below)
    (simp add: gas_before_floor_def)

theorem estimate_gas_miss_always_floor_witness:
  "no_cache (gas_key (call_tx ''0xa9059cbb0001'')) = None
   \<and> eth_estimate_gas (estimating_node (Inr 8000000)) [] (call_tx ''0xa9059cbb0001'') = Inr 8000000
   \<and> estimate_gas (call_tx ''0xa9059cbb0001'') (estimating_node (Inr 8000000)) no_cache [] =
       (Inr ((call_tx ''0xa9059cbb0001'')\<lparr>tx_gas := Some (PyInt 10000000)\<rparr>),
        no_cache(gas_key (call_tx ''0xa9059cbb0001'') \<mapsto> PyInt 10000000),
        [] @ [Call_estimate_gas (call_tx ''0xa9059cbb0001'') (Inr 8000000)])
   \<and> int_times_float 8000000 1.5 = Inr (Finite 12000000)
   \<and> \<not> exceeds (gas_before_floor (Finite 12000000)) 10000000
   \<and> gas_before_floor (Finite 12000000) = PyInt 100000"
proof -
  have miss: "no_cache (gas_key (call_tx ''0xa9059cbb0001'')) = None"
    by (simp add: no_cache_def)
  have est: "eth_estimate_gas (estimating_node (Inr 8000000)) [] (call_tx ''0xa9059cbb0001'') =
      Inr 8000000"
    by (simp add: estimating_node_def constant_node_def)
  have scaled: "int_times_float 8000000 1.5 = Inr (Finite 12000000)"
    by code_simp
  show ?thesis
    using miss est scaled
      estimate_gas_miss_always_floor [of no_cache "call_tx ''0xa9059cbb0001''"
        "estimating_node (Inr 8000000)" "[]" 8000000]
    by simp
qed

text \<open>
  The claim as first stated is for every non-negative \<open>E\<close>. At \<open>E = 2^1024\<close> the
  function raises, and the cache and the transaction get no gas.
\<close>

theorem estimate_gas_floor_counterexample:
  "(0 :: int) \<le> 2 ^ 1024
   \<and> no_cache (gas_key (call_tx ''0xa9059cbb0001'')) = None
   \<and> eth_estimate_gas (estimating_node (Inr (2 ^ 1024))) [] (call_tx ''0xa9059cbb0001'') =
       Inr (2 ^ 1024)
   \<and> estimate_gas (call_tx ''0xa9059cbb0001'') (estimating_node (Inr (2 ^ 1024))) no_cache [] =
       (Inl (OverflowError ''int too large to convert to float''), no_cache,
        [Call_estimate_gas (call_tx ''0xa9059cbb0001'') (Inr (2 ^ 1024))])"
  by (simp add: estimate_gas_def do_estimate_gas_answer no_cache_def estimating_node_def
        constant_node_def)

subsection \<open>Traces of the polling loop\<close>

lemma sleeps_append [simp]: "sleeps (xs @ ys) = sleeps xs @ sleeps ys"
  by (induction xs rule: sleeps.induct) simp_all

lemma count_reads_append [simp]: "count_reads (xs @ ys) = count_reads xs @ count_reads ys"
  by (induction xs rule: count_reads.induct) simp_all

lemma receipt_waits_append [simp]:
  "receipt_waits (xs @ ys) = receipt_waits xs @ receipt_waits ys"
  by (induction xs rule: receipt_waits.induct) simp_all

lemma rounds_events_simps [simp]:
  "rounds_events addr rounds [] = []"
  "rounds_events addr [] answers = []"
  "rounds_events addr (i # rest) (a # answers) =
     round_events addr i a @ rounds_events addr rest answers"
  by (simp_all add: rounds_events_def)

text \<open>
  The polling loop, by induction on its rounds: the trace grows by the events of the
  rounds it ran, one sleep and one read of the polled address each, and the answers it
  received are those the node gave at the moment of each read.
\<close>

lemma nonce_loop_trace:
  "nonce_loop w a b rounds tr = (out, tr') \<Longrightarrow>
   \<exists>answers. tr' = tr @ rounds_events a rounds answers \<and> loop_post w a b rounds tr out answers"
proof (induction rounds arbitrary: tr out tr')
  case Nil
  then have "tr' = tr @ rounds_events a [] [] \<and> loop_post w a b [] tr out []"
    by (auto simp: loop_post_def split: sum.splits)
  then show ?case by blast
next
  case (Cons i rest)
  define tr1 where "tr1 = tr @ sleep_events i"
  define answer where "answer = eth_get_transaction_count w tr1 a"
  define tr2 where "tr2 = tr @ round_events a i answer"
  have step: "nonce_loop w a b (i # rest) tr =
      (case answer of
         Inl e \<Rightarrow> (Inl e, tr2)
       | Inr c \<Rightarrow> if c > b then (Inr (), tr2) else nonce_loop w a b rest tr2)"
    unfolding tr2_def answer_def tr1_def round_events_def sleep_events_def
    by (simp add: Let_def split: sum.splits)
  have one: "tr2 = tr @ rounds_events a (i # rest) [answer]" by (simp add: tr2_def)
  have read: "\<forall>j < length [answer]. [answer] ! j =
      eth_get_transaction_count w
        (tr @ rounds_events a (i # rest) (take j [answer]) @ sleep_events ((i # rest) ! j)) a"
    by (simp add: answer_def tr1_def)
  show ?case
  proof (cases answer)
    case (Inl e)
    with step Cons.prems have "out = Inl e" "tr' = tr2" by simp_all
    then have "tr' = tr @ rounds_events a (i # rest) [answer] \<and>
        loop_post w a b (i # rest) tr out [answer]"
      using one read Inl by (auto simp: loop_post_def)
    then show ?thesis by blast
  next
    case (Inr c)
    show ?thesis
    proof (cases "c > b")
      case True
      with step Cons.prems Inr have "out = Inr ()" "tr' = tr2" by simp_all
      moreover have "\<exists>c'. answer = Inr c' \<and> (b < c' \<or> rest = [])"
        using Inr True by simp
      ultimately have "tr' = tr @ rounds_events a (i # rest) [answer] \<and>
          loop_post w a b (i # rest) tr out [answer]"
        using one read by (simp add: loop_post_def)
      then show ?thesis by blast
    next
      case False
      with step Cons.prems Inr have run: "nonce_loop w a b rest tr2 = (out, tr')" by simp
      from Cons.IH [OF run] obtain answers where
        tr': "tr' = tr2 @ rounds_events a rest answers" and
        post: "loop_post w a b rest tr2 out answers" by blast
      from post [unfolded loop_post_def] have
        pl: "length answers \<le> length rest" and
        pn: "rest \<noteq> [] \<longrightarrow> answers \<noteq> []" and
        pr: "\<forall>j < length answers. answers ! j =
              eth_get_transaction_count w
                (tr2 @ rounds_events a rest (take j answers) @ sleep_events (rest ! j)) a" and
        pb: "\<forall>j. Suc j < length answers \<longrightarrow> (\<exists>c. answers ! j = Inr c \<and> c \<le> b)" and
        plast: "(case out of
           Inl e \<Rightarrow> answers \<noteq> [] \<and> last answers = Inl e
         | Inr u \<Rightarrow> answers \<noteq> [] \<longrightarrow>
             (\<exists>c. last answers = Inr c \<and> (b < c \<or> length answers = length rest)))"
        by blast+
      have t: "tr' = tr @ rounds_events a (i # rest) (answer # answers)"
        using tr' by (simp add: tr2_def)
      have reads: "\<forall>j < length (answer # answers). (answer # answers) ! j =
          eth_get_transaction_count w
            (tr @ rounds_events a (i # rest) (take j (answer # answers))
               @ sleep_events ((i # rest) ! j)) a"
      proof (intro allI impI)
        fix j assume j: "j < length (answer # answers)"
        show "(answer # answers) ! j =
          eth_get_transaction_count w
            (tr @ rounds_events a (i # rest) (take j (answer # answers))
               @ sleep_events ((i # rest) ! j)) a"
        proof (cases j)
          case 0
          then show ?thesis by (simp add: answer_def tr1_def)
        next
          case (Suc j')
          with j have "j' < length answers" by simp
          with pr have "answers ! j' =
              eth_get_transaction_count w
                (tr2 @ rounds_events a rest (take j' answers) @ sleep_events (rest ! j')) a"
            by blast
          then show ?thesis by (simp add: Suc tr2_def)
        qed
      qed
      have below: "\<forall>j. Suc j < length (answer # answers) \<longrightarrow>
          (\<exists>c. (answer # answers) ! j = Inr c \<and> c \<le> b)"
      proof (intro allI impI)
        fix j assume j: "Suc j < length (answer # answers)"
        show "\<exists>c. (answer # answers) ! j = Inr c \<and> c \<le> b"
        proof (cases j)
          case 0
          then show ?thesis using Inr False by simp
        next
          case (Suc j')
          with j have "Suc j' < length answers" by simp
          with pb show ?thesis by (simp add: Suc)
        qed
      qed
      have last: "(case out of
           Inl e \<Rightarrow> answer # answers \<noteq> [] \<and> last (answer # answers) = Inl e
         | Inr u \<Rightarrow> answer # answers \<noteq> [] \<longrightarrow>
             (\<exists>c. last (answer # answers) = Inr c \<and>
                (b < c \<or> length (answer # answers) = length (i # rest))))"
      proof (cases answers)
        case Nil
        with pn have "rest = []" by simp
        with run have "out = Inr ()" by simp
        then show ?thesis using Nil Inr \<open>rest = []\<close> by simp
      next
        case (Cons x xs)
        with plast show ?thesis by (auto split: sum.splits)
      qed
      have len: "length (answer # answers) \<le> length (i # rest)"
        using pl by simp
      have "loop_post w a b (i # rest) tr out (answer # answers)"
        unfolding loop_post_def using len reads below last by blast
      with t show ?thesis by blast
    qed
  qed
qed

lemma zip_upt_short: "length ys \<le> n \<Longrightarrow> zip [0..<n] ys = zip [0..<length ys] ys"
proof -
  assume n: "length ys \<le> n"
  have "take (length ys) (zip [0..<n] ys) = zip [0..<n] ys"
    by (rule take_all) simp
  moreover have "take (length ys) (zip [0..<n] ys) = zip (take (length ys) [0..<n]) (take (length ys) ys)"
    by (rule take_zip)
  moreover have "take (length ys) [0..<n] = [0..<length ys]"
    using n take_upt [of 0 "length ys" n] by simp
  moreover have "take (length ys) ys = ys" by simp
  ultimately show ?thesis by (simp only:)
qed

lemma rounds_events_upt: "length ys \<le> n \<Longrightarrow> rounds_events a [0..<n] ys = poll_events a ys"
  using zip_upt_short [of ys n] by (simp add: rounds_events_def poll_events_def)

lemma poll_events_snoc:
  "poll_events a (ys @ [y]) = poll_events a ys @ round_events a (length ys) y"
  by (simp add: poll_events_def rounds_events_def)

lemma sleeps_poll_events:
  "sleeps (poll_events a ys) = map (\<lambda>i. of_nat i * 1.5 + 1) [0..<length ys]"
  by (induction ys rule: rev_induct)
    (simp_all add: poll_events_snoc round_events_def sleep_events_def, simp add: poll_events_def)

text \<open>
  Claim C4, as amended. Every confirmation wait, as \<^verbatim>\<open>send_raw_transaction\<close> and
  \<^verbatim>\<open>faucet\<close> run it, reads the transaction count of the polled address at least
  once and at most ten times, and each answer is the one the node gives at that moment;
  before the read of attempt \<open>i = 0, 1, \<dots>\<close> it sleeps \<open>i * 1.5 + 1\<close> seconds; every
  read before the last returned a count that did not exceed the baseline, so the loop
  stops at the first count that exceeds it. When the last read returned a count, whether
  or not it exceeded the baseline, the wait ends with the receipt wait for the
  transaction hash with timeout 120 and poll interval 20, made on the node after the
  polls, whose answer is the answer of the whole wait. When the last read raised, the
  wait ends there with that exception and no receipt wait is made.
\<close>

theorem confirmation_wait_schedule:
  assumes "confirmation_wait read_web3 addr baseline h tr = (out, tr')"
  shows "\<exists>answers. 1 \<le> length answers \<and> length answers \<le> 10
    \<and> (\<forall>i < length answers.
          answers ! i =
            eth_get_transaction_count read_web3
              (tr @ poll_events addr (take i answers) @ sleep_events i) addr)
    \<and> (\<forall>i. Suc i < length answers \<longrightarrow> (\<exists>c. answers ! i = Inr c \<and> c \<le> baseline))
    \<and> sleeps (poll_events addr answers) = map (\<lambda>i. of_nat i * 1.5 + 1) [0..<length answers]
    \<and> (case last answers of
          Inl e \<Rightarrow> out = Inl e \<and> tr' = tr @ poll_events addr answers
        | Inr c \<Rightarrow>
            (baseline < c \<or> length answers = 10)
          \<and> out = eth_wait_for_transaction_receipt read_web3 (tr @ poll_events addr answers) h 120 20
          \<and> tr' = tr @ poll_events addr answers
                     @ [Call_wait_for_transaction_receipt h 120 20 out])"
proof -
  obtain r tr1 where loop: "nonce_loop read_web3 addr baseline [0..<10] tr = (r, tr1)"
    by (cases "nonce_loop read_web3 addr baseline [0..<10] tr")
  from nonce_loop_trace [OF loop] obtain answers where
    tr1: "tr1 = tr @ rounds_events addr [0..<10] answers" and
    post: "loop_post read_web3 addr baseline [0..<10] tr r answers" by blast
  from post [unfolded loop_post_def] have
    pl: "length answers \<le> length [0..<10]" and
    pn: "[0..<10] \<noteq> [] \<longrightarrow> answers \<noteq> []" and
    pr: "\<forall>j < length answers. answers ! j =
          eth_get_transaction_count read_web3
            (tr @ rounds_events addr [0..<10] (take j answers) @ sleep_events ([0..<10] ! j)) addr" and
    pb: "\<forall>j. Suc j < length answers \<longrightarrow> (\<exists>c. answers ! j = Inr c \<and> c \<le> baseline)" and
    plast: "(case r of
       Inl e \<Rightarrow> answers \<noteq> [] \<and> last answers = Inl e
     | Inr u \<Rightarrow> answers \<noteq> [] \<longrightarrow>
         (\<exists>c. last answers = Inr c \<and> (baseline < c \<or> length answers = length [0..<10])))"
    by blast+
  have len: "length answers \<le> 10" using pl by simp
  have ne: "answers \<noteq> []" using pn by simp
  then have len1: "1 \<le> length answers" by (cases answers) simp_all
  have ev: "rounds_events addr [0..<10] answers = poll_events addr answers"
    using len by (rule rounds_events_upt)
  have reads: "\<forall>i < length answers. answers ! i =
      eth_get_transaction_count read_web3
        (tr @ poll_events addr (take i answers) @ sleep_events i) addr"
  proof (intro allI impI)
    fix i assume i: "i < length answers"
    then have "length (take i answers) \<le> 10" and nth: "[0..<10] ! i = i"
      using len by simp_all
    then have ev_i: "rounds_events addr [0..<10] (take i answers) = poll_events addr (take i answers)"
      by (intro rounds_events_upt)
    from pr i have "answers ! i =
      eth_get_transaction_count read_web3
        (tr @ rounds_events addr [0..<10] (take i answers) @ sleep_events ([0..<10] ! i)) addr"
      by blast
    then show "answers ! i =
      eth_get_transaction_count read_web3
        (tr @ poll_events addr (take i answers) @ sleep_events i) addr"
      by (simp only: ev_i nth)
  qed
  have final: "(case last answers of
          Inl e \<Rightarrow> out = Inl e \<and> tr' = tr @ poll_events addr answers
        | Inr c \<Rightarrow>
            (baseline < c \<or> length answers = 10)
          \<and> out = eth_wait_for_transaction_receipt read_web3 (tr @ poll_events addr answers) h 120 20
          \<and> tr' = tr @ poll_events addr answers
                     @ [Call_wait_for_transaction_receipt h 120 20 out])"
  proof (cases r)
    case (Inl e)
    then have "out = Inl e" "tr' = tr1" using assms loop by (simp_all add: confirmation_wait_def)
    moreover have "last answers = Inl e" using plast Inl by simp
    ultimately show ?thesis using tr1 ev by simp
  next
    case (Inr u)
    then have "out = eth_wait_for_transaction_receipt read_web3 tr1 h 120 20"
      "tr' = tr1 @ [Call_wait_for_transaction_receipt h 120 20 out]"
      using assms loop by (auto simp: confirmation_wait_def Let_def)
    moreover obtain c where "last answers = Inr c" "baseline < c \<or> length answers = 10"
      using plast Inr ne by auto
    ultimately show ?thesis using tr1 ev by simp
  qed
  have sl: "sleeps (poll_events addr answers) =
      map (\<lambda>i. of_nat i * 1.5 + 1) [0..<length answers]"
    by (rule sleeps_poll_events)
  show ?thesis
    by (rule exI [of _ answers]) (intro conjI len1 len reads pb sl final)
qed

text \<open>
  A wait on a node whose count rises after the first read: two reads, sleeps of 1 and
  2.5 seconds, then the receipt wait.
\<close>

theorem confirmation_wait_schedule_witness:
  "confirmation_wait (mining_node 1) ''0xfa'' 5 ''0xabcd'' [] =
     (Inr \<lparr>transactionHash = ''0xabcd''\<rparr>,
      [Log DEBUG ''Waiting {sleep_time} seconds for faucet transaction confirmation'' [Num 1],
       Sleep 1, Call_get_transaction_count ''0xfa'' (Inr 5),
       Log DEBUG ''Waiting {sleep_time} seconds for faucet transaction confirmation'' [Num (5 / 2)],
       Sleep (5 / 2), Call_get_transaction_count ''0xfa'' (Inr 6),
       Call_wait_for_transaction_receipt ''0xabcd'' 120 20 (Inr \<lparr>transactionHash = ''0xabcd''\<rparr>)])
   \<and> (\<exists>answers. 1 \<le> length answers \<and> length answers \<le> 10
    \<and> (\<forall>i < length answers.
          answers ! i =
            eth_get_transaction_count (mining_node 1)
              ([] @ poll_events ''0xfa'' (take i answers) @ sleep_events i) ''0xfa'')
    \<and> (\<forall>i. Suc i < length answers \<longrightarrow> (\<exists>c. answers ! i = Inr c \<and> c \<le> 5))
    \<and> sleeps (poll_events ''0xfa'' answers) = map (\<lambda>i. of_nat i * 1.5 + 1) [0..<length answers]
    \<and> (case last answers of
          Inl e \<Rightarrow> fst (confirmation_wait (mining_node 1) ''0xfa'' 5 ''0xabcd'' []) = Inl e
            \<and> snd (confirmation_wait (mining_node 1) ''0xfa'' 5 ''0xabcd'' []) =
                [] @ poll_events ''0xfa'' answers
        | Inr c \<Rightarrow>
            (5 < c \<or> length answers = 10)
          \<and> fst (confirmation_wait (mining_node 1) ''0xfa'' 5 ''0xabcd'' []) =
              eth_wait_for_transaction_receipt (mining_node 1) ([] @ poll_events ''0xfa'' answers)
                ''0xabcd'' 120 20
          \<and> snd (confirmation_wait (mining_node 1) ''0xfa'' 5 ''0xabcd'' []) =
              [] @ poll_events ''0xfa'' answers
                 @ [Call_wait_for_transaction_receipt ''0xabcd'' 120 20
                      (fst (confirmation_wait (mining_node 1) ''0xfa'' 5 ''0xabcd'' []))]))"
proof -
  have run: "confirmation_wait (mining_node 1) ''0xfa'' 5 ''0xabcd'' [] =
     (fst (confirmation_wait (mining_node 1) ''0xfa'' 5 ''0xabcd'' []),
      snd (confirmation_wait (mining_node 1) ''0xfa'' 5 ''0xabcd'' []))" by simp
  have val: "confirmation_wait (mining_node 1) ''0xfa'' 5 ''0xabcd'' [] =
     (Inr \<lparr>transactionHash = ''0xabcd''\<rparr>,
      [Log DEBUG ''Waiting {sleep_time} seconds for faucet transaction confirmation'' [Num 1],
       Sleep 1, Call_get_transaction_count ''0xfa'' (Inr 5),
       Log DEBUG ''Waiting {sleep_time} seconds for faucet transaction confirmation'' [Num (5 / 2)],
       Sleep (5 / 2), Call_get_transaction_count ''0xfa'' (Inr 6),
       Call_wait_for_transaction_receipt ''0xabcd'' 120 20 (Inr \<lparr>transactionHash = ''0xabcd''\<rparr>)])"
    by (simp add: confirmation_wait_def mining_node_def constant_node_def upt_rec Let_def)
  from confirmation_wait_schedule [OF run] val show ?thesis by (rule_tac conjI)
qed

text \<open>
  The claim as first stated has the receipt wait attempted after every poll loop. On a
  node that answers the read before the broadcast and fails the first poll, the
  exception leaves the loop: \<^verbatim>\<open>send_raw_transaction\<close> logs it and makes no receipt
  wait. The wait itself, on a node that cannot be reached, ends with the exception after
  one sleep and one read.
\<close>

theorem confirmation_wait_receipt_counterexample:
  "send_raw_transaction signed_tx flaky_node flaky_node ''0xaa'' [] =
     (Inr \<lparr>res_transaction = None, res_current_cid_commit = None\<rparr>,
      [Call_get_transaction_count ''0xaa'' (Inr 5),
       Call_send_raw_transaction ''0xf86b'' (Inr ''0xabcd''),
       Log INFO ''A transaction has been sent'' [],
       Log INFO ''Waiting for transaction confirmation'' [],
       Log DEBUG ''Waiting {sleep_time} seconds for faucet transaction confirmation'' [Num 1],
       Sleep 1,
       Call_get_transaction_count ''0xaa'' (Inl (RPCError ''connection refused'')),
       Log ERROR ''Error sending transaction : {e}'' [Exc (RPCError ''connection refused'')],
       Log INFO ''A transaction has been confirmed'' []])
   \<and> receipt_waits (snd (send_raw_transaction signed_tx flaky_node flaky_node ''0xaa'' [])) = []
   \<and> confirmation_wait offline_node ''0xaa'' 5 ''0xabcd'' [] =
       (Inl (RPCError ''connection refused''),
        [Log DEBUG ''Waiting {sleep_time} seconds for faucet transaction confirmation'' [Num 1],
         Sleep 1,
         Call_get_transaction_count ''0xaa'' (Inl (RPCError ''connection refused''))])"
  by (simp add: send_raw_transaction_def send_raw_transaction_try_def confirmation_wait_def
        flaky_node_def offline_node_def constant_node_def signed_tx_def upt_rec Let_def)

text \<open>
  Where the two functions run the wait. In \<^verbatim>\<open>send_raw_transaction\<close> the baseline is
  the count read before the broadcast, and the hash is the one the broadcast returned;
  in \<^verbatim>\<open>faucet\<close> likewise, for the faucet's address, after a sleep of three seconds.
\<close>

lemma send_raw_transaction_try_waits:
  assumes "eth_get_transaction_count read_web3 tr worker_address = Inr previous_nonce"
      and "eth_send_raw_transaction write_web3
             (tr @ [Call_get_transaction_count worker_address (Inr previous_nonce)])
             (rawTransaction transaction) = Inr transaction_hash"
  shows "send_raw_transaction_try transaction write_web3 read_web3 worker_address tr =
     confirmation_wait read_web3 worker_address previous_nonce transaction_hash
       (tr @ [Call_get_transaction_count worker_address (Inr previous_nonce),
              Call_send_raw_transaction (rawTransaction transaction) (Inr transaction_hash),
              Log INFO ''A transaction has been sent'' [],
              Log INFO ''Waiting for transaction confirmation'' []])"
  using assms by (simp add: send_raw_transaction_try_def)

lemma faucet_waits:
  assumes "is_address worker_address"
      and "tr1 = tr @ [Log INFO ''Faucet with '{selected_faucet} and {worker_address}''
                          [Num (of_int (fst selected_faucet)), Str (snd selected_faucet),
                           Str worker_address]]"
      and "eth_account_from_key read_web3 tr1 (snd selected_faucet) = Inr faucet_address"
      and "tr2 = tr1 @ [Call_from_key (snd selected_faucet) (Inr faucet_address)]"
      and "eth_get_transaction_count read_web3 tr2 faucet_address = Inr previous_nounce"
      and "tr3 = tr2 @ [Call_get_transaction_count faucet_address (Inr previous_nounce)]"
      and "request = \<lparr>tr_nonce = previous_nounce, tr_gasPrice = 500000, tr_gas = 100000,
                        tr_to = worker_address, tr_value = 500000000000000,
                        tr_data = ''Hi Exorde!''\<rparr>"
      and "eth_account_sign_transaction read_web3 tr3 request (snd selected_faucet) = Inr signed"
      and "tr4 = tr3 @ [Call_sign_transaction request (snd selected_faucet) (Inr signed)]"
      and "eth_send_raw_transaction write_web3 tr4 (rawTransaction signed) = Inr transaction_hash"
      and "tr5 = tr4 @ [Call_send_raw_transaction (rawTransaction signed) (Inr transaction_hash)]"
  shows "faucet is_address balance write_web3 read_web3 selected_faucet worker_address tr =
     (case confirmation_wait read_web3 faucet_address previous_nounce transaction_hash
             (tr5 @ [Sleep 3, Log INFO ''Waiting for transaction confirmation'' []]) of
        (Inl e, tr7) \<Rightarrow> (Raised e, tr7)
      | (Inr transaction_receipt, tr7) \<Rightarrow>
          (Returned (),
           tr7 @ [Log INFO ''SFUEL funding transaction {transaction_receipt.transactionHash.hex()}''
                    [Str (transactionHash transaction_receipt)]]))"
  using assms by (simp add: faucet_def Let_def)

subsection \<open>Failures of the remote node\<close>

text \<open>
  The handler of \<^verbatim>\<open>send_raw_transaction\<close>: whatever the \<^verbatim>\<open>try\<close> block did, the
  function returns its dict of two \<^verbatim>\<open>None\<close>s.
\<close>

lemma send_raw_transaction_result:
  "send_raw_transaction transaction write_web3 read_web3 worker_address tr =
     (Inr \<lparr>res_transaction = None, res_current_cid_commit = None\<rparr>,
      snd (send_raw_transaction_try transaction write_web3 read_web3 worker_address tr)
      @ (case fst (send_raw_transaction_try transaction write_web3 read_web3 worker_address tr) of
           Inl e \<Rightarrow> [Log ERROR ''Error sending transaction : {e}'' [Exc e]]
         | Inr r \<Rightarrow> [])
      @ [Log INFO ''A transaction has been confirmed'' []])"
  by (simp add: send_raw_transaction_def Let_def split: prod.splits sum.splits)

text \<open>
  Claim C3, as amended. When the remote broadcast rejects the transaction,
  \<^verbatim>\<open>send_raw_transaction\<close> has made two remote calls, the read of the count and the
  rejected broadcast, and makes no other: it logs the exception at level ERROR and
  returns the dict whose two values are \<^verbatim>\<open>None\<close>. When the broadcast is accepted,
  the poll loop ends without an exception and the receipt wait raises, its timeout
  among the causes, the function makes no remote call after the failed receipt wait,
  logs the exception at level ERROR and returns the same dict. In neither case does an
  error reach the caller, and nothing is retried. The exceptions are those the handler
  \<^verbatim>\<open>except Exception\<close> catches, as the errors of the node and the timeout of the
  receipt wait are.
\<close>

theorem send_raw_transaction_failures_swallowed:
  "(eth_get_transaction_count read_web3 tr worker_address = Inr previous_nonce \<longrightarrow>
    eth_send_raw_transaction write_web3
      (tr @ [Call_get_transaction_count worker_address (Inr previous_nonce)])
      (rawTransaction transaction) = Inl e \<longrightarrow>
      fst (send_raw_transaction transaction write_web3 read_web3 worker_address tr) =
        Inr \<lparr>res_transaction = None, res_current_cid_commit = None\<rparr>
    \<and> filter is_call (drop (length tr)
         (snd (send_raw_transaction transaction write_web3 read_web3 worker_address tr))) =
        [Call_get_transaction_count worker_address (Inr previous_nonce),
         Call_send_raw_transaction (rawTransaction transaction) (Inl e)]
    \<and> Log ERROR ''Error sending transaction : {e}'' [Exc e] \<in> set (drop (length tr)
         (snd (send_raw_transaction transaction write_web3 read_web3 worker_address tr))))
   \<and> (eth_get_transaction_count read_web3 tr worker_address = Inr previous_nonce \<longrightarrow>
      eth_send_raw_transaction write_web3
        (tr @ [Call_get_transaction_count worker_address (Inr previous_nonce)])
        (rawTransaction transaction) = Inr transaction_hash \<longrightarrow>
      nonce_loop read_web3 worker_address previous_nonce [0..<10]
        (tr @ [Call_get_transaction_count worker_address (Inr previous_nonce),
               Call_send_raw_transaction (rawTransaction transaction) (Inr transaction_hash),
               Log INFO ''A transaction has been sent'' [],
               Log INFO ''Waiting for transaction confirmation'' []]) = (Inr (), tr4) \<longrightarrow>
      eth_wait_for_transaction_receipt read_web3 tr4 transaction_hash 120 20 = Inl e' \<longrightarrow>
        fst (send_raw_transaction transaction write_web3 read_web3 worker_address tr) =
          Inr \<lparr>res_transaction = None, res_current_cid_commit = None\<rparr>
      \<and> take (Suc (length tr4))
           (snd (send_raw_transaction transaction write_web3 read_web3 worker_address tr)) =
          tr4 @ [Call_wait_for_transaction_receipt transaction_hash 120 20 (Inl e')]
      \<and> filter is_call (drop (Suc (length tr4))
           (snd (send_raw_transaction transaction write_web3 read_web3 worker_address tr))) = []
      \<and> Log ERROR ''Error sending transaction : {e}'' [Exc e'] \<in> set (drop (Suc (length tr4))
           (snd (send_raw_transaction transaction write_web3 read_web3 worker_address tr))))"
proof (intro conjI impI)
  assume c: "eth_get_transaction_count read_web3 tr worker_address = Inr previous_nonce"
    and s: "eth_send_raw_transaction write_web3
      (tr @ [Call_get_transaction_count worker_address (Inr previous_nonce)])
      (rawTransaction transaction) = Inl e"
  have t: "send_raw_transaction_try transaction write_web3 read_web3 worker_address tr =
      (Inl e, tr @ [Call_get_transaction_count worker_address (Inr previous_nonce),
                    Call_send_raw_transaction (rawTransaction transaction) (Inl e)])"
    using c s by (simp add: send_raw_transaction_try_def)
  show "fst (send_raw_transaction transaction write_web3 read_web3 worker_address tr) =
        Inr \<lparr>res_transaction = None, res_current_cid_commit = None\<rparr>"
    by (simp add: send_raw_transaction_result)
  show "filter is_call (drop (length tr)
         (snd (send_raw_transaction transaction write_web3 read_web3 worker_address tr))) =
        [Call_get_transaction_count worker_address (Inr previous_nonce),
         Call_send_raw_transaction (rawTransaction transaction) (Inl e)]"
    by (simp add: send_raw_transaction_result t)
  show "Log ERROR ''Error sending transaction : {e}'' [Exc e] \<in> set (drop (length tr)
         (snd (send_raw_transaction transaction write_web3 read_web3 worker_address tr)))"
    by (simp add: send_raw_transaction_result t)
next
  assume c: "eth_get_transaction_count read_web3 tr worker_address = Inr previous_nonce"
    and s: "eth_send_raw_transaction write_web3
      (tr @ [Call_get_transaction_count worker_address (Inr previous_nonce)])
      (rawTransaction transaction) = Inr transaction_hash"
    and l: "nonce_loop read_web3 worker_address previous_nonce [0..<10]
        (tr @ [Call_get_transaction_count worker_address (Inr previous_nonce),
               Call_send_raw_transaction (rawTransaction transaction) (Inr transaction_hash),
               Log INFO ''A transaction has been sent'' [],
               Log INFO ''Waiting for transaction confirmation'' []]) = (Inr (), tr4)"
    and w: "eth_wait_for_transaction_receipt read_web3 tr4 transaction_hash 120 20 = Inl e'"
  have t: "send_raw_transaction_try transaction write_web3 read_web3 worker_address tr =
      (Inl e', tr4 @ [Call_wait_for_transaction_receipt transaction_hash 120 20 (Inl e')])"
    using c s l w by (simp add: send_raw_transaction_try_def confirmation_wait_def Let_def)
  show "fst (send_raw_transaction transaction write_web3 read_web3 worker_address tr) =
        Inr \<lparr>res_transaction = None, res_current_cid_commit = None\<rparr>"
    by (simp add: send_raw_transaction_result)
  show "take (Suc (length tr4))
           (snd (send_raw_transaction transaction write_web3 read_web3 worker_address tr)) =
          tr4 @ [Call_wait_for_transaction_receipt transaction_hash 120 20 (Inl e')]"
    by (simp add: send_raw_transaction_result t)
  show "filter is_call (drop (Suc (length tr4))
           (snd (send_raw_transaction transaction write_web3 read_web3 worker_address tr))) = []"
    by (simp add: send_raw_transaction_result t)
  show "Log ERROR ''Error sending transaction : {e}'' [Exc e'] \<in> set (drop (Suc (length tr4))
           (snd (send_raw_transaction transaction write_web3 read_web3 worker_address tr)))"
    by (simp add: send_raw_transaction_result t)
qed

text \<open>
  A node that rejects the broadcast, and a node that accepts it and whose receipt wait
  times out after ten fruitless reads.
\<close>

theorem send_raw_transaction_failures_swallowed_witness:
  "eth_get_transaction_count rejecting_node [] ''0xaa'' = Inr 5
   \<and> eth_send_raw_transaction rejecting_node
       ([] @ [Call_get_transaction_count ''0xaa'' (Inr 5)]) (rawTransaction signed_tx) =
       Inl (RPCError ''nonce too low'')
   \<and> fst (send_raw_transaction signed_tx rejecting_node rejecting_node ''0xaa'' []) =
       Inr \<lparr>res_transaction = None, res_current_cid_commit = None\<rparr>
   \<and> filter is_call (drop (length ([] :: event list))
        (snd (send_raw_transaction signed_tx rejecting_node rejecting_node ''0xaa'' []))) =
       [Call_get_transaction_count ''0xaa'' (Inr 5),
        Call_send_raw_transaction (rawTransaction signed_tx) (Inl (RPCError ''nonce too low''))]
   \<and> Log ERROR ''Error sending transaction : {e}'' [Exc (RPCError ''nonce too low'')]
       \<in> set (drop (length ([] :: event list))
            (snd (send_raw_transaction signed_tx rejecting_node rejecting_node ''0xaa'' [])))
   \<and> eth_get_transaction_count stuck_node [] ''0xaa'' = Inr 5
   \<and> eth_send_raw_transaction stuck_node
       ([] @ [Call_get_transaction_count ''0xaa'' (Inr 5)]) (rawTransaction signed_tx) =
       Inr ''0xabcd''
   \<and> fst (nonce_loop stuck_node ''0xaa'' 5 [0..<10]
        ([] @ [Call_get_transaction_count ''0xaa'' (Inr 5),
               Call_send_raw_transaction (rawTransaction signed_tx) (Inr ''0xabcd''),
               Log INFO ''A transaction has been sent'' [],
               Log INFO ''Waiting for transaction confirmation'' []])) = Inr ()
   \<and> length (snd (nonce_loop stuck_node ''0xaa'' 5 [0..<10]
        ([] @ [Call_get_transaction_count ''0xaa'' (Inr 5),
               Call_send_raw_transaction (rawTransaction signed_tx) (Inr ''0xabcd''),
               Log INFO ''A transaction has been sent'' [],
               Log INFO ''Waiting for transaction confirmation'' []]))) = 34
   \<and> eth_wait_for_transaction_receipt stuck_node
        (snd (nonce_loop stuck_node ''0xaa'' 5 [0..<10]
          ([] @ [Call_get_transaction_count ''0xaa'' (Inr 5),
                 Call_send_raw_transaction (rawTransaction signed_tx) (Inr ''0xabcd''),
                 Log INFO ''A transaction has been sent'' [],
                 Log INFO ''Waiting for transaction confirmation'' []])))
        ''0xabcd'' 120 20 =
       Inl (TimeExhausted ''Transaction is not in the chain after 120 seconds'')
   \<and> fst (send_raw_transaction signed_tx stuck_node stuck_node ''0xaa'' []) =
       Inr \<lparr>res_transaction = None, res_current_cid_commit = None\<rparr>
   \<and> filter is_call (drop 35
        (snd (send_raw_transaction signed_tx stuck_node stuck_node ''0xaa'' []))) = []
   \<and> Log ERROR ''Error sending transaction : {e}''
         [Exc (TimeExhausted ''Transaction is not in the chain after 120 seconds'')]
       \<in> set (drop 35 (snd (send_raw_transaction signed_tx stuck_node stuck_node ''0xaa'' [])))"
proof -
  let ?tr3 = "[] @ [Call_get_transaction_count ''0xaa'' (Inr 5),
               Call_send_raw_transaction (rawTransaction signed_tx) (Inr ''0xabcd''),
               Log INFO ''A transaction has been sent'' [],
               Log INFO ''Waiting for transaction confirmation'' []]"
  let ?tr4 = "snd (nonce_loop stuck_node ''0xaa'' 5 [0..<10] ?tr3)"
  have a1: "eth_get_transaction_count rejecting_node [] ''0xaa'' = Inr 5"
    by (simp add: rejecting_node_def constant_node_def)
  have a2: "eth_send_raw_transaction rejecting_node
       ([] @ [Call_get_transaction_count ''0xaa'' (Inr 5)]) (rawTransaction signed_tx) =
       Inl (RPCError ''nonce too low'')"
    by (simp add: rejecting_node_def constant_node_def)
  have b1: "eth_get_transaction_count stuck_node [] ''0xaa'' = Inr 5"
    by (simp add: stuck_node_def constant_node_def)
  have b2: "eth_send_raw_transaction stuck_node
       ([] @ [Call_get_transaction_count ''0xaa'' (Inr 5)]) (rawTransaction signed_tx) =
       Inr ''0xabcd''"
    by (simp add: stuck_node_def constant_node_def)
  have b3f: "fst (nonce_loop stuck_node ''0xaa'' 5 [0..<10] ?tr3) = Inr ()"
    by (simp add: stuck_node_def constant_node_def upt_rec Let_def)
  have b3l: "length ?tr4 = 34"
    by (simp add: stuck_node_def constant_node_def upt_rec Let_def)
  have b3: "nonce_loop stuck_node ''0xaa'' 5 [0..<10] ?tr3 = (Inr (), ?tr4)"
    using b3f by (simp add: prod_eq_iff)
  have b4: "eth_wait_for_transaction_receipt stuck_node ?tr4 ''0xabcd'' 120 20 =
       Inl (TimeExhausted ''Transaction is not in the chain after 120 seconds'')"
    by (simp add: stuck_node_def constant_node_def)
  note A = send_raw_transaction_failures_swallowed [THEN conjunct1, rule_format, OF a1 a2]
  note B = send_raw_transaction_failures_swallowed [THEN conjunct2, rule_format, OF b1 b2 b3 b4]
  have B': "fst (send_raw_transaction signed_tx stuck_node stuck_node ''0xaa'' []) =
       Inr \<lparr>res_transaction = None, res_current_cid_commit = None\<rparr>
   \<and> filter is_call (drop 35
        (snd (send_raw_transaction signed_tx stuck_node stuck_node ''0xaa'' []))) = []
   \<and> Log ERROR ''Error sending transaction : {e}''
         [Exc (TimeExhausted ''Transaction is not in the chain after 120 seconds'')]
       \<in> set (drop 35 (snd (send_raw_transaction signed_tx stuck_node stuck_node ''0xaa'' [])))"
    using B unfolding b3l by simp
  show ?thesis
    by (intro conjI a1 a2 b1 b2 b3f b3l b4 A [THEN conjunct1] A [THEN conjunct2, THEN conjunct1]
          A [THEN conjunct2, THEN conjunct2] B' [THEN conjunct1]
          B' [THEN conjunct2, THEN conjunct1] B' [THEN conjunct2, THEN conjunct2])
qed

text \<open>
  The claim as first stated has the failure surfaced to the caller. On a node that
  rejects the broadcast, and on a node whose receipt wait times out after ten fruitless
  reads, the function returns its usual dict.
\<close>

theorem send_raw_transaction_error_counterexample:
  "eth_send_raw_transaction rejecting_node [Call_get_transaction_count ''0xaa'' (Inr 5)]
       (rawTransaction signed_tx)
     = Inl (RPCError ''nonce too low'')
   \<and> send_raw_transaction signed_tx rejecting_node rejecting_node ''0xaa'' [] =
       (Inr \<lparr>res_transaction = None, res_current_cid_commit = None\<rparr>,
        [Call_get_transaction_count ''0xaa'' (Inr 5),
         Call_send_raw_transaction ''0xf86b'' (Inl (RPCError ''nonce too low'')),
         Log ERROR ''Error sending transaction : {e}'' [Exc (RPCError ''nonce too low'')],
         Log INFO ''A transaction has been confirmed'' []])
   \<and> fst (send_raw_transaction signed_tx stuck_node stuck_node ''0xaa'' []) =
       Inr \<lparr>res_transaction = None, res_current_cid_commit = None\<rparr>
   \<and> receipt_waits (snd (send_raw_transaction signed_tx stuck_node stuck_node ''0xaa'' [])) =
       [(''0xabcd'', 120, 20)]
   \<and> last (butlast (snd (send_raw_transaction signed_tx stuck_node stuck_node ''0xaa'' []))) =
       Log ERROR ''Error sending transaction : {e}''
         [Exc (TimeExhausted ''Transaction is not in the chain after 120 seconds'')]"
  by (simp add: send_raw_transaction_def send_raw_transaction_try_def confirmation_wait_def
        rejecting_node_def stuck_node_def constant_node_def signed_tx_def mined_def upt_rec
        Let_def)

text \<open>
  Claim C5, as amended. When the remote read of the transaction count raises,
  \<^verbatim>\<open>nonce\<close> logs an error that names the address and returns \<^verbatim>\<open>None\<close>; the
  exception does not reach the caller.
\<close>

theorem nonce_failure_returns_None:
  assumes "eth_get_transaction_count read_web3 tr worker_address = Inl e"
  shows "nonce worker_address read_web3 tr =
           (Inr None,
            tr @ [Call_get_transaction_count worker_address (Inl e),
                  Log ERROR ''Error getting nonce ({worker_address})'' [Str worker_address]])"
  using assms by (simp add: nonce_def)

theorem nonce_failure_returns_None_witness:
  "eth_get_transaction_count offline_node [] ''0xaa'' = Inl (RPCError ''connection refused'')
   \<and> nonce ''0xaa'' offline_node [] =
       (Inr None,
        [] @ [Call_get_transaction_count ''0xaa'' (Inl (RPCError ''connection refused'')),
              Log ERROR ''Error getting nonce ({worker_address})'' [Str ''0xaa'']])"
proof -
  have h: "eth_get_transaction_count offline_node [] ''0xaa'' =
      Inl (RPCError ''connection refused'')"
    by (simp add: offline_node_def constant_node_def)
  show ?thesis using h nonce_failure_returns_None [OF h] by simp
qed

text \<open>
  The claim as first stated has the call fail with the error. On a node that cannot be
  reached the call returns \<^verbatim>\<open>None\<close> and raises nothing.
\<close>

theorem nonce_propagates_counterexample:
  "eth_get_transaction_count offline_node [] ''0xaa'' = Inl (RPCError ''connection refused'')
   \<and> fst (nonce ''0xaa'' offline_node []) = Inr None
   \<and> fst (nonce ''0xaa'' offline_node []) \<noteq> Inl (RPCError ''connection refused'')"
  by (simp add: nonce_def offline_node_def constant_node_def)

subsection \<open>Gateway rotation\<close>

lemma stake_rotate_gateways:
  "stake n rotate_gateways = map (\<lambda>i. gateways ! (i mod length gateways)) [0..<n]"
  by (simp add: rotate_gateways_def Suc_funpow)

lemma snth_rotate_gateways:
  "rotate_gateways !! i = gateways ! (i mod length gateways)"
  by (simp add: rotate_gateways_def Suc_funpow)

lemma length_gateways: "length gateways = 7"
  by (simp add: gateways_def)

lemma two_rounds: "stake (2 * length gateways) rotate_gateways = gateways @ gateways"
proof -
  have "map (\<lambda>i. gateways ! (i mod 7)) [0..<14] = gateways @ gateways"
    by (simp add: gateways_def upt_rec)
  then show ?thesis by (simp add: stake_rotate_gateways length_gateways)
qed

text \<open>
  Claim C7, as amended. The first \<open>2 * N\<close> elements of a fresh gateway sequence, \<open>N\<close>
  the length of the gateway list, are the list followed by the list: every entry of the
  list is returned exactly twice, in the original order both times, so that a URL is
  returned twice as often as the list names it. The first URL stands three times in the
  list and is returned six times. A new sequence starts at index 0.
\<close>

theorem rotate_gateways_two_rounds:
  "stake (2 * length gateways) rotate_gateways = gateways @ gateways
   \<and> (\<forall>u. count_list (stake (2 * length gateways) rotate_gateways) u = 2 * count_list gateways u)
   \<and> shd rotate_gateways = gateways ! 0
   \<and> count_list (stake (2 * length gateways) rotate_gateways)
        ''http://ipfs-gateway.exorde.network/ipfs/'' = 6"
proof -
  have "count_list gateways ''http://ipfs-gateway.exorde.network/ipfs/'' = 3"
    by (simp add: gateways_def)
  moreover have "shd rotate_gateways = gateways ! 0"
    using snth_rotate_gateways [of 0] by simp
  ultimately show ?thesis by (simp add: two_rounds)
qed

text \<open>
  The claim as first stated has every URL returned exactly twice. The first URL of the
  list is not.
\<close>

theorem rotate_gateways_twice_counterexample:
  "''http://ipfs-gateway.exorde.network/ipfs/'' \<in> set gateways
   \<and> count_list (stake (2 * length gateways) rotate_gateways)
        ''http://ipfs-gateway.exorde.network/ipfs/'' \<noteq> 2"
  by (simp add: length_gateways stake_rotate_gateways gateways_def upt_rec)

subsection \<open>The faucet\<close>

text \<open>
  Claim C8. A call of \<^verbatim>\<open>faucet\<close> with a worker address that fails the format check
  ends the process with status 1; the only effect is the log entry at level CRITICAL.
  No key is used, nothing is signed and no node is called.
\<close>

theorem faucet_invalid_address_exits:
  assumes "\<not> is_address worker_address"
  shows "faucet is_address balance write_web3 read_web3 selected_faucet worker_address tr =
           (Exited 1, tr @ [Log CRITICAL ''Invalid worker address'' []])
       \<and> filter is_call (drop (length tr)
            (snd (faucet is_address balance write_web3 read_web3 selected_faucet
                    worker_address tr))) = []"
  using assms by (simp add: faucet_def)

theorem faucet_invalid_address_exits_witness:
  "\<not> has_address_shape ''0x1234''
   \<and> faucet has_address_shape 0 offline_node offline_node (select_random_faucet 7) ''0x1234'' [] =
       (Exited 1, [] @ [Log CRITICAL ''Invalid worker address'' []])
   \<and> filter is_call (drop (length ([] :: event list))
        (snd (faucet has_address_shape 0 offline_node offline_node (select_random_faucet 7)
                ''0x1234'' []))) = []"
proof -
  have h: "\<not> has_address_shape ''0x1234''" by (simp add: has_address_shape_def)
  show ?thesis
    using h faucet_invalid_address_exits [of has_address_shape "''0x1234''" 0 offline_node
        offline_node "select_random_faucet 7" "[]"]
    by simp
qed

subsection \<open>Faucet selection\<close>

declare to_hex.simps [simp del]

lemma hex_digits_facts:
  "distinct hex_digits" "length hex_digits = 16" "CHR ''0'' \<in> set hex_digits"
  "hex_digit_value CHR ''0'' = 0"
  by (simp_all add: hex_digits_def hex_digit_value_def)

lemma hex_digit_value_hex_digit: "d < 16 \<Longrightarrow> hex_digit_value (hex_digit d) = d"
proof -
  assume d: "d < 16"
  have "takeWhile (\<lambda>x. x \<noteq> hex_digits ! d) hex_digits = take d hex_digits"
  proof (rule takeWhile_eq_take_P_nth)
    fix i assume "i < d" "i < length hex_digits"
    then show "hex_digits ! i \<noteq> hex_digits ! d"
      using d by (simp add: nth_eq_iff_index_eq hex_digits_facts)
  qed simp
  then show ?thesis using d by (simp add: hex_digit_def hex_digit_value_def hex_digits_facts)
qed

lemma hex_digit_in: "d < 16 \<Longrightarrow> hex_digit d \<in> set hex_digits"
  unfolding hex_digit_def by (rule nth_mem) (simp add: hex_digits_facts)

lemma hex_value_snoc: "hex_value (s @ [c]) = 16 * hex_value s + hex_digit_value c"
  by (simp add: hex_value_def)

lemma hex_value_to_hex: "hex_value (to_hex n) = n"
proof (induction n rule: to_hex.induct)
  case (1 n)
  show ?case
  proof (cases "n < 16")
    case True
    then show ?thesis
      by (simp add: to_hex.simps [of n] hex_value_def hex_digit_value_hex_digit)
  next
    case False
    with 1 have "hex_value (to_hex (n div 16)) = n div 16" by simp
    then show ?thesis using False
      by (simp add: to_hex.simps [of n] hex_value_snoc hex_digit_value_hex_digit)
  qed
qed

lemma length_to_hex: "n < 16 ^ k \<Longrightarrow> 0 < k \<Longrightarrow> length (to_hex n) \<le> k"
proof (induction n arbitrary: k rule: to_hex.induct)
  case (1 n)
  show ?case
  proof (cases "n < 16")
    case True
    then show ?thesis using "1.prems" by (simp add: to_hex.simps [of n])
  next
    case False
    obtain k' where k: "k = Suc k'" using "1.prems" by (cases k) auto
    have "k' \<noteq> 0" using False "1.prems" k by (cases k') auto
    moreover have "n div 16 < 16 ^ k'" using "1.prems" k
      by (simp add: less_mult_imp_div_less mult.commute)
    ultimately have "length (to_hex (n div 16)) \<le> k'" using "1.IH" False by simp
    then show ?thesis using False k by (simp add: to_hex.simps [of n])
  qed
qed

lemma to_hex_digits: "list_all (\<lambda>c. c \<in> set hex_digits) (to_hex n)"
proof (induction n rule: to_hex.induct)
  case (1 n)
  show ?case
  proof (cases "n < 16")
    case True
    then show ?thesis using hex_digit_in [of n] by (simp add: to_hex.simps [of n])
  next
    case False
    then show ?thesis using 1 hex_digit_in [of "n mod 16"] by (simp add: to_hex.simps [of n])
  qed
qed

lemma hex_value_zeros: "hex_value (replicate k CHR ''0'' @ s) = hex_value s"
proof -
  have "foldl (\<lambda>acc c. 16 * acc + hex_digit_value c) 0 (replicate k CHR ''0'') = 0"
    by (induction k) (simp_all add: hex_digits_facts)
  then show ?thesis by (simp add: hex_value_def)
qed

lemma format_04x_props:
  assumes "n < 65536"
  shows "length (format_04x n) = 4" and "hex_value (format_04x n) = n"
    and "list_all (\<lambda>c. c \<in> set hex_digits) (format_04x n)"
proof -
  have "n < 16 ^ 4" using assms by simp
  then have "length (to_hex n) \<le> 4" by (rule length_to_hex) simp
  then show "length (format_04x n) = 4" by (simp add: format_04x_def Let_def)
  show "hex_value (format_04x n) = n"
    by (simp add: format_04x_def Let_def hex_value_zeros hex_value_to_hex)
  show "list_all (\<lambda>c. c \<in> set hex_digits) (format_04x n)"
    using to_hex_digits [of n]
    by (auto simp: format_04x_def Let_def list_all_iff hex_digits_facts)
qed

text \<open>
  Claim C9. Whatever the random source draws, \<^verbatim>\<open>select_random_faucet\<close> returns an
  index that is at least 0 and below 500, and a private key that is the fixed base string
  followed by the representation of that index: exactly four characters, all hexadecimal
  digits, whose value as a hexadecimal numeral is the index. The key has 64 characters.
  The key is a function of the base and the index alone.
\<close>

theorem select_random_faucet_index_and_key:
  "(case select_random_faucet r of
      (selected_faucet_index, faucet_private_key) \<Rightarrow>
        0 \<le> selected_faucet_index \<and> selected_faucet_index < 500
      \<and> faucet_private_key = private_key_base @ format_04x (nat selected_faucet_index)
      \<and> length (format_04x (nat selected_faucet_index)) = 4
      \<and> list_all (\<lambda>c. c \<in> set hex_digits) (format_04x (nat selected_faucet_index))
      \<and> hex_value (format_04x (nat selected_faucet_index)) = nat selected_faucet_index
      \<and> length faucet_private_key = 64)"
proof -
  have i: "select_random_faucet r = (int (r mod 500), private_key_base @ format_04x (r mod 500))"
    by (simp add: select_random_faucet_def randrange_def randbelow_def Let_def)
  have "r mod 500 < 65536" by (rule less_trans [of _ 500]) simp_all
  from format_04x_props [OF this] show ?thesis
    by (simp add: i private_key_base_def)
qed

end
